(* ===== verification/ULP_Prelude.thy ===== *)
theory ULP_Prelude
  imports Main "HOL-Library.Word" "HOL-Library.Sublist"
begin

text \<open>
  Shared vocabulary of the ULPNode RF protocol development: the machine types of
  \<^verbatim>\<open>ULPNode_RF_Protocol.cpp\<close> (\<^verbatim>\<open>uint8_t\<close>, \<^verbatim>\<open>int8_t\<close>, \<^verbatim>\<open>uint16_t\<close>, \<^verbatim>\<open>int16_t\<close>,
  \<^verbatim>\<open>uint32_t\<close>) as words, the C run-time environment the code's undefined or
  implementation-defined conversions depend on, little-endian field reads from the
  payload, and the generic list and word lemmas the component theories share.
\<close>

type_synonym byte = "8 word"
type_synonym u16 = "16 word"
type_synonym u32 = "32 word"

named_theorems fmt_simps "equations that evaluate the formatted fragments"
named_theorems read_simps "facts about little-endian field reads"

subsection \<open>The C run-time environment\<close>

text \<open>
  The source is built for AVR (\<^verbatim>\<open>arduino.h\<close>, \<^verbatim>\<open>PROGMEM\<close>) or for the Spark core
  (\<^verbatim>\<open>#ifdef SPARK\<close>, an ARM target). The two differ in the width of C's \<open>int\<close>,
  which decides how a \<^verbatim>\<open>uint16_t\<close> passed to a \<^verbatim>\<open>%d\<close> conversion is printed.
  \<open>stray_s\<close> is the text printed by a \<^verbatim>\<open>%s\<close> conversion that has no argument
  (undefined behaviour in C: whatever string the next vararg slot points to).
\<close>

datatype platform = AVR | SPARK

record c_env =
  platform :: platform
  stray_s :: string

text \<open>A \<^verbatim>\<open>uint16_t\<close> argument to \<^verbatim>\<open>%d\<close>: promoted to \<open>unsigned int\<close> and read
  back as a 16-bit \<open>int\<close> on AVR, promoted to a 32-bit \<open>int\<close> on ARM.\<close>

definition promote_u16_d :: "platform \<Rightarrow> u16 \<Rightarrow> int" where
  "promote_u16_d pf w = (case pf of AVR \<Rightarrow> sint w | SPARK \<Rightarrow> uint w)"

text \<open>A \<^verbatim>\<open>char *\<close> argument to \<^verbatim>\<open>%d\<close> prints the pointer's address read as an
  \<open>int\<close>: 16-bit pointers and \<open>int\<close> on AVR, 32-bit ones on ARM. The address is kept
  as a 32-bit word, of which AVR uses the low half.\<close>

definition ptr_d :: "platform \<Rightarrow> u32 \<Rightarrow> int" where
  "ptr_d pf a = (case pf of AVR \<Rightarrow> sint (ucast a :: u16) | SPARK \<Rightarrow> sint a)"

text \<open>A \<^verbatim>\<open>uint16_t\<close> argument to \<^verbatim>\<open>%ld\<close>: on ARM it is promoted to a 32-bit
  \<open>int\<close> of the size of \<open>long\<close> and printed exactly; on AVR it is passed in two bytes
  and \<^verbatim>\<open>%ld\<close> reads four, so the two bytes after it (\<open>hi\<close>, undefined in C) become
  the high half of the \<open>long\<close> printed.\<close>

definition long_of_u16_arg :: "platform \<Rightarrow> u16 \<Rightarrow> u16 \<Rightarrow> int" where
  "long_of_u16_arg pf w hi =
     (case pf of AVR \<Rightarrow> sint (word_of_nat (unat w + 65536 * unat hi) :: u32) | SPARK \<Rightarrow> uint w)"

subsection \<open>Little-endian reads\<close>

text \<open>The code casts the payload pointer to packed structs; both targets are
  little-endian, so a field of \<open>n\<close> bytes at offset \<open>i\<close> is the little-endian value of
  \<open>p ! i, \<dots>, p ! (i + n - 1)\<close>.\<close>

definition rd_u8 :: "byte list \<Rightarrow> nat \<Rightarrow> byte" where
  "rd_u8 p i = p ! i"

definition rd_u16 :: "byte list \<Rightarrow> nat \<Rightarrow> u16" where
  "rd_u16 p i = word_of_nat (unat (p ! i) + 256 * unat (p ! Suc i))"

definition rd_u32 :: "byte list \<Rightarrow> nat \<Rightarrow> u32" where
  "rd_u32 p i = word_of_nat (unat (p ! i) + 256 * unat (p ! (i + 1))
     + 65536 * unat (p ! (i + 2)) + 16777216 * unat (p ! (i + 3)))"

subsection \<open>Shared lemmas\<close>

lemma nth_drop_take [read_simps]:
  "i + k < n \<Longrightarrow> n \<le> length p \<Longrightarrow> drop i (take n p) ! k = p ! (i + k)"
  by simp

lemma rd_u8_local [read_simps]:
  "i < n \<Longrightarrow> rd_u8 (take n p) i = rd_u8 p i"
  by (simp add: rd_u8_def)

lemma rd_u16_local [read_simps]:
  "Suc i < n \<Longrightarrow> rd_u16 (take n p) i = rd_u16 p i"
  by (simp add: rd_u16_def)

lemma rd_u32_local [read_simps]:
  "i + 3 < n \<Longrightarrow> rd_u32 (take n p) i = rd_u32 p i"
  by (simp add: rd_u32_def)

lemma rd_u16_drop [read_simps]:
  "i \<le> length p \<Longrightarrow> rd_u16 (drop i p) k = rd_u16 p (i + k)"
  by (simp add: rd_u16_def)

lemma rd_u32_drop [read_simps]:
  "i \<le> length p \<Longrightarrow> rd_u32 (drop i p) k = rd_u32 p (i + k)"
  by (simp add: rd_u32_def add.assoc)

lemma rd_u8_drop [read_simps]:
  "i \<le> length p \<Longrightarrow> rd_u8 (drop i p) k = rd_u8 p (i + k)"
  by (simp add: rd_u8_def)

lemma unat_sub_le_word:
  fixes l :: "'a::len word"
  assumes "n \<le> unat l"
  shows "unat (l - word_of_nat n) = unat l - n"
proof -
  have "unat l < 2 ^ LENGTH('a)"
    by simp
  with assms have "n < 2 ^ LENGTH('a)"
    by linarith
  then have "unat (word_of_nat n :: 'a word) = n"
    by (simp add: unat_of_nat)
  with assms show ?thesis
    by (metis unat_sub word_le_nat_alt)
qed

subsection \<open>Signed readings of words\<close>

lemma uint_as_sint_mod: fixes w :: "'a::len word" shows "uint w = sint w mod 2 ^ LENGTH('a)"
  by (simp only: uint_sint take_bit_eq_mod)

lemma pow2_len_split: "(2::int) ^ LENGTH('a::len) = 2 * 2 ^ (LENGTH('a) - 1)"
  using power_Suc [of "2::int" "LENGTH('a) - 1"] by simp

lemma sint_nonneg_uint:
  fixes w :: "'a::len word"
  assumes "0 \<le> sint w"
  shows "uint w = sint w"
  using uint_as_sint_mod [of w] sint_lt [of w] pow2_len_split [where 'a='a] assms
  by (simp add: mod_pos_pos_trivial)

lemma sint_neg_uint:
  fixes w :: "'a::len word"
  assumes "sint w < 0"
  shows "uint w = sint w + 2 ^ LENGTH('a)"
proof -
  have "sint w mod 2 ^ LENGTH('a) = (sint w + 2 ^ LENGTH('a)) mod 2 ^ LENGTH('a)"
    by simp
  also have "\<dots> = sint w + 2 ^ LENGTH('a)"
    using sint_ge [of w] pow2_len_split [where 'a='a] assms
    by (intro mod_pos_pos_trivial) simp_all
  finally show ?thesis by (simp only: uint_as_sint_mod)
qed

lemma sint_as_unat:
  fixes w :: "'a::len word"
  shows "sint w = (if unat w < 2 ^ (LENGTH('a) - 1) then int (unat w)
                   else int (unat w) - 2 ^ LENGTH('a))"
proof (cases "0 \<le> sint w")
  case True
  then have eq: "int (unat w) = sint w"
    by (simp add: sint_nonneg_uint)
  have "int (unat w) < int (2 ^ (LENGTH('a) - 1))"
    using eq sint_lt [of w] by simp
  then have "unat w < 2 ^ (LENGTH('a) - 1)"
    by (simp only: of_nat_less_iff)
  with eq show ?thesis by simp
next
  case False
  then have eq: "int (unat w) = sint w + 2 ^ LENGTH('a)"
    by (simp add: sint_neg_uint)
  have "int (2 ^ (LENGTH('a) - 1)) \<le> int (unat w)"
    using eq sint_ge [of w] pow2_len_split [where 'a='a] by simp
  then have "\<not> unat w < 2 ^ (LENGTH('a) - 1)"
    by (simp only: of_nat_le_iff not_less)
  with eq show ?thesis by simp
qed
lemma sint_u32_cases:
  fixes c :: u32
  shows "sint c = (if unat c < 2147483648 then int (unat c) else int (unat c) - int (2 * 2147483648))"
  using sint_as_unat [of c] by simp

lemma sint_u16_cases:
  fixes c :: u16
  shows "sint c = (if unat c < 32768 then int (unat c) else int (unat c) - int (2 * 32768))"
  using sint_as_unat [of c] by simp

lemma unat_u32_bound: "unat (c :: u32) < 2 * 2147483648"
  using unsigned_less [of c] by simp

lemma unat_u16_bound: "unat (c :: u16) < 2 * 32768"
  using unsigned_less [of c] by simp

lemma unat_byte_bound: "unat (c :: byte) < 256"
  using unsigned_less [of c] by simp

end
