(* ===== verification/Protocol.thy ===== *)
theory Protocol
  imports ULP_Prelude
begin

unbundle bit_operations_syntax

text \<open>
  The protocol constants of \<^verbatim>\<open>ULPNode_RF_Protocol.h\<close>, which the repository does not
  ship under \<^verbatim>\<open>src/\<close>; they are modelled from the specification. The code space of a
  frame's command byte is split into the command codes \<open>0x00..0x0F\<close> and the data codes
  \<open>0x10..0x1F\<close> (the two halves of the name table \<^verbatim>\<open>rf_frame\<close>). A record's tag byte
  holds its sensor kind in the bits of \<^verbatim>\<open>RF_DAT_SENSOR_MASK\<close> and the sensor index in the
  two low bits; the kind codes follow the order of the name table \<^verbatim>\<open>rf_data\<close> left
  commented out in the source (one code per four tag values). Every value struct is packed:
  the tag byte, then the value, little-endian.
\<close>

subsection \<open>Command and data codes\<close>

definition RF_PL_ALIVE :: byte where "RF_PL_ALIVE = 0x01"
definition RF_PL_PING :: byte where "RF_PL_PING = 0x02"
definition RF_PL_PINGBACK :: byte where "RF_PL_PINGBACK = 0x03"

definition isPayloadValid :: "byte \<Rightarrow> bool" where
  "isPayloadValid c \<longleftrightarrow> c \<le> 0x1F"

definition isPayloadData :: "byte \<Rightarrow> bool" where
  "isPayloadData c \<longleftrightarrow> 0x10 \<le> c \<and> c \<le> 0x1F"

subsection \<open>Sensor kinds\<close>

definition RF_DAT_SENSOR_MASK :: byte where "RF_DAT_SENSOR_MASK = 0xFC"

definition RF_DAT_TEMP :: byte where "RF_DAT_TEMP = 0x08"
definition RF_DAT_HUM :: byte where "RF_DAT_HUM = 0x0C"
definition RF_DAT_LUX :: byte where "RF_DAT_LUX = 0x10"
definition RF_DAT_CO2 :: byte where "RF_DAT_CO2 = 0x14"
definition RF_DAT_RSSI :: byte where "RF_DAT_RSSI = 0x18"
definition RF_DAT_VOLT :: byte where "RF_DAT_VOLT = 0x1C"
definition RF_DAT_BAT :: byte where "RF_DAT_BAT = 0x20"
definition RF_DAT_COUNTER :: byte where "RF_DAT_COUNTER = 0x24"
definition RF_DAT_LOWBAT :: byte where "RF_DAT_LOWBAT = 0x28"

definition isDataTemp :: "byte \<Rightarrow> bool" where
  "isDataTemp t \<longleftrightarrow> t AND RF_DAT_SENSOR_MASK = RF_DAT_TEMP"
definition isDataHum :: "byte \<Rightarrow> bool" where
  "isDataHum t \<longleftrightarrow> t AND RF_DAT_SENSOR_MASK = RF_DAT_HUM"
definition isDataLux :: "byte \<Rightarrow> bool" where
  "isDataLux t \<longleftrightarrow> t AND RF_DAT_SENSOR_MASK = RF_DAT_LUX"
definition isDataCO2 :: "byte \<Rightarrow> bool" where
  "isDataCO2 t \<longleftrightarrow> t AND RF_DAT_SENSOR_MASK = RF_DAT_CO2"
definition isDataRSSI :: "byte \<Rightarrow> bool" where
  "isDataRSSI t \<longleftrightarrow> t AND RF_DAT_SENSOR_MASK = RF_DAT_RSSI"
definition isDataVolt :: "byte \<Rightarrow> bool" where
  "isDataVolt t \<longleftrightarrow> t AND RF_DAT_SENSOR_MASK = RF_DAT_VOLT"
definition isDataBat :: "byte \<Rightarrow> bool" where
  "isDataBat t \<longleftrightarrow> t AND RF_DAT_SENSOR_MASK = RF_DAT_BAT"
definition isDataCounter :: "byte \<Rightarrow> bool" where
  "isDataCounter t \<longleftrightarrow> t AND RF_DAT_SENSOR_MASK = RF_DAT_COUNTER"
definition isDataLowBat :: "byte \<Rightarrow> bool" where
  "isDataLowBat t \<longleftrightarrow> t AND RF_DAT_SENSOR_MASK = RF_DAT_LOWBAT"

subsection \<open>Struct sizes\<close>

text \<open>\<^verbatim>\<open>sizeof\<close> of the packed value structs: one tag byte and the value.\<close>

definition sizeof_s_temp :: nat where "sizeof_s_temp = 3"
definition sizeof_s_hum :: nat where "sizeof_s_hum = 3"
definition sizeof_s_lux :: nat where "sizeof_s_lux = 3"
definition sizeof_s_co2 :: nat where "sizeof_s_co2 = 3"
definition sizeof_s_volt :: nat where "sizeof_s_volt = 3"
definition sizeof_s_rssi :: nat where "sizeof_s_rssi = 2"
definition sizeof_s_counter :: nat where "sizeof_s_counter = 5"
definition sizeof_s_lowbat :: nat where "sizeof_s_lowbat = 2"

text \<open>The alive and ping payloads: a 16-bit status followed by a 16-bit battery voltage.\<close>

definition sizeof_RFAlivePayload :: nat where "sizeof_RFAlivePayload = 4"
definition sizeof_RFPingPayload :: nat where "sizeof_RFPingPayload = 4"

definition payload_status :: "byte list \<Rightarrow> u16" where
  "payload_status p = rd_u16 p 0"

definition payload_vbat :: "byte list \<Rightarrow> u16" where
  "payload_vbat p = rd_u16 p 2"

lemmas code_defs = RF_PL_ALIVE_def RF_PL_PING_def RF_PL_PINGBACK_def
  isPayloadValid_def isPayloadData_def

lemmas kind_defs = isDataTemp_def isDataHum_def isDataLux_def isDataCO2_def isDataRSSI_def
  isDataVolt_def isDataBat_def isDataCounter_def isDataLowBat_def RF_DAT_SENSOR_MASK_def
  RF_DAT_TEMP_def RF_DAT_HUM_def RF_DAT_LUX_def RF_DAT_CO2_def RF_DAT_RSSI_def
  RF_DAT_VOLT_def RF_DAT_BAT_def RF_DAT_COUNTER_def RF_DAT_LOWBAT_def

lemmas sizeof_defs = sizeof_s_temp_def sizeof_s_hum_def sizeof_s_lux_def sizeof_s_co2_def
  sizeof_s_volt_def sizeof_s_rssi_def sizeof_s_counter_def sizeof_s_lowbat_def
  sizeof_RFAlivePayload_def sizeof_RFPingPayload_def

subsection \<open>Codes as numbers\<close>

text \<open>Comparisons of byte numerals are decided on their \<open>unat\<close> readings.\<close>

lemma isPayloadValid_unat: "isPayloadValid c \<longleftrightarrow> unat c < 32"
  by (auto simp: isPayloadValid_def word_le_nat_alt)

lemma isPayloadData_unat: "isPayloadData c \<longleftrightarrow> 16 \<le> unat c \<and> unat c < 32"
  by (auto simp: isPayloadData_def word_le_nat_alt)

lemma code_eq_unat:
  "c = RF_PL_ALIVE \<longleftrightarrow> unat c = 1" "c = RF_PL_PING \<longleftrightarrow> unat c = 2"
  "c = RF_PL_PINGBACK \<longleftrightarrow> unat c = 3"
  by (simp_all add: code_defs word_unat_eq_iff)

lemmas code_unat = isPayloadValid_unat isPayloadData_unat code_eq_unat

end
