(* ===== verification/C_Format.thy ===== *)
theory C_Format
  imports ULP_Prelude
begin

text \<open>
  The C library conversions the decoder's \<^verbatim>\<open>sprintf_P\<close> and \<^verbatim>\<open>dtostrf\<close> calls rely
  on, as functions on strings: \<^verbatim>\<open>%d\<close>/\<^verbatim>\<open>%ld\<close> (signed decimal), \<^verbatim>\<open>%0<w>X\<close>
  (zero-padded upper-case hexadecimal) and avr-libc's \<^verbatim>\<open>dtostrf(val, width, prec)\<close>
  (fixed-point text right-justified in \<open>width\<close>). The decoder only ever calls
  \<^verbatim>\<open>dtostrf\<close> on \<open>raw / 10^prec\<close> for an integer \<open>raw\<close> of at most 16 bits, whose
  single-precision quotient lies within \<open>10^-prec / 2\<close> of the exact decimal, so
  \<open>dtostrf_scaled raw width prec\<close> prints the exact decimal \<open>raw / 10^prec\<close>.
  The theory also holds the inverse readers (decimal and hexadecimal text to numbers)
  used to state round trips.
\<close>

definition digit_char :: "nat \<Rightarrow> char" where
  "digit_char d = char_of (48 + d)"

fun dec_nat :: "nat \<Rightarrow> string" where
  "dec_nat n = (if n < 10 then [digit_char n] else dec_nat (n div 10) @ [digit_char (n mod 10)])"

declare dec_nat.simps [simp del]

text \<open>\<^verbatim>\<open>%d\<close> and \<^verbatim>\<open>%ld\<close> of a value already converted to the C argument type.\<close>

definition c_fmt_d :: "int \<Rightarrow> string" where
  "c_fmt_d i = (if i < 0 then CHR ''-'' # dec_nat (nat (- i)) else dec_nat (nat i))"

definition hex_char :: "nat \<Rightarrow> char" where
  "hex_char d = (if d < 10 then char_of (48 + d) else char_of (55 + d))"

fun hex_nat :: "nat \<Rightarrow> string" where
  "hex_nat n = (if n < 16 then [hex_char n] else hex_nat (n div 16) @ [hex_char (n mod 16)])"

declare hex_nat.simps [simp del]

definition zero_pad :: "nat \<Rightarrow> string \<Rightarrow> string" where
  "zero_pad w s = replicate (w - length s) (CHR ''0'') @ s"

text \<open>\<^verbatim>\<open>%0<w>X\<close> of a non-negative value.\<close>

definition c_fmt_X0 :: "nat \<Rightarrow> nat \<Rightarrow> string" where
  "c_fmt_X0 w n = zero_pad w (hex_nat n)"

definition pad_left :: "nat \<Rightarrow> string \<Rightarrow> string" where
  "pad_left w s = replicate (w - length s) (CHR '' '') @ s"

text \<open>\<^verbatim>\<open>dtostrf(raw / 10^prec, width, prec)\<close>.\<close>

definition dtostrf_scaled :: "int \<Rightarrow> nat \<Rightarrow> nat \<Rightarrow> string" where
  "dtostrf_scaled v width prec = pad_left width
     ((if v < 0 then ''-'' else []) @ dec_nat (nat \<bar>v\<bar> div 10 ^ prec) @
      (if prec = 0 then []
       else CHR ''.'' # zero_pad prec (dec_nat (nat \<bar>v\<bar> mod 10 ^ prec))))"

subsection \<open>Readers\<close>

definition digit_val :: "char \<Rightarrow> nat" where
  "digit_val c = of_char c - 48"

definition dec_val :: "string \<Rightarrow> nat" where
  "dec_val s = foldl (\<lambda>acc c. 10 * acc + digit_val c) 0 s"

definition hex_val_char :: "char \<Rightarrow> nat" where
  "hex_val_char c = (if of_char c < (58::nat) then of_char c - 48 else (of_char c :: nat) - 55)"

definition hex_val :: "string \<Rightarrow> nat" where
  "hex_val s = foldl (\<lambda>acc c. 16 * acc + hex_val_char c) 0 s"

text \<open>The reader of \<^verbatim>\<open>dtostrf\<close>'s text: leading blanks, an optional sign, the
  integer digits, a point and \<open>prec\<close> fraction digits, read as the integer
  \<open>value * 10^prec\<close>.\<close>

definition read_fixed :: "nat \<Rightarrow> string \<Rightarrow> int" where
  "read_fixed prec s =
     (let s1 = dropWhile (\<lambda>c. c = CHR '' '') s;
          neg = (take 1 s1 = ''-'');
          s2 = (if neg then tl s1 else s1);
          ip = takeWhile (\<lambda>c. c \<noteq> CHR ''.'') s2;
          fp = drop (Suc (length ip)) s2;
          m = int (dec_val ip * 10 ^ prec + dec_val fp)
      in if neg then - m else m)"

definition is_dec_char :: "char \<Rightarrow> bool" where
  "is_dec_char c \<longleftrightarrow> (48::nat) \<le> of_char c \<and> (of_char c :: nat) \<le> 57"

definition is_hex_char :: "char \<Rightarrow> bool" where
  "is_hex_char c \<longleftrightarrow> is_dec_char c \<or> ((65::nat) \<le> of_char c \<and> (of_char c :: nat) \<le> 70)"

subsection \<open>Decimal text\<close>

lemma digit_val_digit_char [simp]: "d < 10 \<Longrightarrow> digit_val (digit_char d) = d"
  by (simp add: digit_val_def digit_char_def)

lemma is_dec_char_digit_char [simp]: "d < 10 \<Longrightarrow> is_dec_char (digit_char d)"
  by (simp add: is_dec_char_def digit_char_def)

lemma dec_val_snoc [simp]: "dec_val (s @ [c]) = 10 * dec_val s + digit_val c"
  by (simp add: dec_val_def)

lemma dec_val_single [simp]: "dec_val [c] = digit_val c"
  by (simp add: dec_val_def)

lemma dec_val_dec_nat [simp]: "dec_val (dec_nat n) = n"
proof (induction n rule: dec_nat.induct)
  case (1 n)
  then show ?case
    by (subst dec_nat.simps) simp
qed

lemma dec_nat_digits: "c \<in> set (dec_nat n) \<Longrightarrow> is_dec_char c"
proof (induction n rule: dec_nat.induct)
  case (1 n)
  then show ?case
    by (subst (asm) dec_nat.simps) (auto split: if_splits)
qed

lemma dec_nat_not_Nil [simp]: "dec_nat n \<noteq> []"
  by (subst dec_nat.simps) simp

lemma length_dec_nat_le: "n < 10 ^ k \<Longrightarrow> 0 < k \<Longrightarrow> length (dec_nat n) \<le> k"
proof (induction n arbitrary: k rule: dec_nat.induct)
  case (1 n)
  show ?case
  proof (cases "n < 10")
    case True
    with "1.prems" show ?thesis by (subst dec_nat.simps) simp
  next
    case False
    then obtain k' where k: "k = Suc k'" and "0 < k'"
      using "1.prems" by (cases k; cases "k - 1") auto
    with "1.prems" have "n div 10 < 10 ^ k'"
      by (simp add: less_mult_imp_div_less mult.commute)
    with "1.IH" False \<open>0 < k'\<close> have "length (dec_nat (n div 10)) \<le> k'"
      by simp
    with False k show ?thesis by (subst dec_nat.simps) simp
  qed
qed

lemma length_dec_nat_ge: "10 ^ k \<le> n \<Longrightarrow> k < length (dec_nat n)"
proof (induction n arbitrary: k rule: dec_nat.induct)
  case (1 n)
  show ?case
  proof (cases k)
    case 0
    then show ?thesis by simp
  next
    case (Suc k')
    have "(10::nat) \<le> 10 ^ k" using Suc by simp
    with "1.prems" have big: "\<not> n < 10"
      by linarith
    from "1.prems" Suc have "10 ^ k' \<le> n div 10"
      by (simp add: less_eq_div_iff_mult_less_eq mult.commute)
    with "1.IH" big have "k' < length (dec_nat (n div 10))"
      by simp
    with big Suc show ?thesis by (subst dec_nat.simps) simp
  qed
qed

lemma c_fmt_d_wrap:
  assumes "n < 2 * h"
  shows "c_fmt_d (if n < h then int n else int n - int (2 * h)) =
         (if n < h then dec_nat n else CHR ''-'' # dec_nat (2 * h - n))"
  using assms by (simp add: c_fmt_d_def nat_diff_distrib nat_mult_distrib)

subsection \<open>Fixed-point text\<close>

lemma dec_char_not_special:
  "is_dec_char c \<Longrightarrow> c \<noteq> CHR ''.'' \<and> c \<noteq> CHR '' '' \<and> c \<noteq> CHR ''-''"
  by (auto simp: is_dec_char_def)

lemma dec_nat_hd: "\<exists>c cs. dec_nat n = c # cs \<and> is_dec_char c"
proof -
  obtain c cs where "dec_nat n = c # cs"
    by (cases "dec_nat n") auto
  moreover from this have "is_dec_char c"
    by (metis dec_nat_digits list.set_intros(1))
  ultimately show ?thesis by blast
qed

lemma dec_val_zero_pad [simp]: "dec_val (zero_pad w s) = dec_val s"
proof -
  have "foldl (\<lambda>acc c. 10 * acc + digit_val c) 0 (replicate k (CHR ''0'')) = 0" for k
    by (induction k) (simp_all add: digit_val_def)
  then show ?thesis by (simp add: zero_pad_def dec_val_def)
qed

lemma dropWhile_blank_pad:
  assumes "s = c # cs" and "c \<noteq> CHR '' ''"
  shows "dropWhile (\<lambda>c. c = CHR '' '') (pad_left w s) = s"
  using assms by (simp add: pad_left_def dropWhile_append3)

lemma takeWhile_dec_nat_point:
  "takeWhile (\<lambda>c. c \<noteq> CHR ''.'') (dec_nat q @ CHR ''.'' # rest) = dec_nat q"
proof -
  have "\<And>c. c \<in> set (dec_nat q) \<Longrightarrow> c \<noteq> CHR ''.''"
    using dec_nat_digits dec_char_not_special by blast
  then show ?thesis by (simp add: takeWhile_append2)
qed

lemma read_fixed_unsigned:
  assumes "0 < prec"
  shows "read_fixed prec (pad_left w (dec_nat (n div 10 ^ prec) @
           CHR ''.'' # zero_pad prec (dec_nat (n mod 10 ^ prec)))) = int n"
proof -
  obtain c cs where hd: "dec_nat (n div 10 ^ prec) = c # cs" and dc: "is_dec_char c"
    using dec_nat_hd by blast
  let ?body = "dec_nat (n div 10 ^ prec) @ CHR ''.'' # zero_pad prec (dec_nat (n mod 10 ^ prec))"
  have drop: "dropWhile (\<lambda>c. c = CHR '' '') (pad_left w ?body) = ?body"
    using dc hd by (intro dropWhile_blank_pad [where c = c]) (auto dest: dec_char_not_special)
  have pos: "take 1 ?body \<noteq> ''-''"
    using dc hd by (auto dest: dec_char_not_special)
  have "int (n div 10 ^ prec) * 10 ^ prec + int (n mod 10 ^ prec) = int n"
    by (metis div_mult_mod_eq of_nat_add of_nat_mult of_nat_numeral of_nat_power)
  then show ?thesis
    using drop pos by (simp add: read_fixed_def Let_def takeWhile_dec_nat_point)
qed

lemma read_fixed_dtostrf_scaled [simp]:
  assumes "0 < prec"
  shows "read_fixed prec (dtostrf_scaled v w prec) = v"
proof (cases "v < 0")
  case True
  let ?n = "nat \<bar>v\<bar>"
  let ?body = "dec_nat (?n div 10 ^ prec) @ CHR ''.'' # zero_pad prec (dec_nat (?n mod 10 ^ prec))"
  have drop: "dropWhile (\<lambda>c. c = CHR '' '') (pad_left w (CHR ''-'' # ?body)) = CHR ''-'' # ?body"
    by (rule dropWhile_blank_pad) (auto simp: of_char_eq_iff [symmetric])
  obtain c cs where hd: "dec_nat (?n div 10 ^ prec) = c # cs" and dc: "is_dec_char c"
    using dec_nat_hd by blast
  have inner: "read_fixed prec ?body = int ?n"
    using read_fixed_unsigned [OF assms, of 0 ?n]
    using dc hd by (simp add: pad_left_def)
  have pos: "take 1 ?body \<noteq> ''-''"
    using dc hd by (auto dest: dec_char_not_special)
  have "dropWhile (\<lambda>c. c = CHR '' '') ?body = ?body"
    using dc hd by (auto dest: dec_char_not_special)
  with inner pos have "int (dec_val (takeWhile (\<lambda>c. c \<noteq> CHR ''.'') ?body) * 10 ^ prec +
      dec_val (drop (Suc (length (takeWhile (\<lambda>c. c \<noteq> CHR ''.'') ?body))) ?body)) = int ?n"
    by (simp add: read_fixed_def Let_def)
  with True assms drop show ?thesis
    by (simp add: read_fixed_def dtostrf_scaled_def Let_def)
next
  case False
  then have "dtostrf_scaled v w prec = pad_left w (dec_nat (nat \<bar>v\<bar> div 10 ^ prec) @
      CHR ''.'' # zero_pad prec (dec_nat (nat \<bar>v\<bar> mod 10 ^ prec)))"
    using assms by (simp add: dtostrf_scaled_def)
  then have "read_fixed prec (dtostrf_scaled v w prec) = int (nat \<bar>v\<bar>)"
    by (simp only: read_fixed_unsigned [OF assms])
  with False show ?thesis by simp
qed

subsection \<open>Hexadecimal text\<close>

lemma hex_val_char_hex_char [simp]: "d < 16 \<Longrightarrow> hex_val_char (hex_char d) = d"
  by (simp add: hex_val_char_def hex_char_def)

lemma is_hex_char_hex_char [simp]: "d < 16 \<Longrightarrow> is_hex_char (hex_char d)"
  by (simp add: is_hex_char_def is_dec_char_def hex_char_def)

lemma hex_val_snoc [simp]: "hex_val (s @ [c]) = 16 * hex_val s + hex_val_char c"
  by (simp add: hex_val_def)

lemma hex_val_single [simp]: "hex_val [c] = hex_val_char c"
  by (simp add: hex_val_def)

lemma hex_val_hex_nat [simp]: "hex_val (hex_nat n) = n"
proof (induction n rule: hex_nat.induct)
  case (1 n)
  then show ?case
    by (subst hex_nat.simps) simp
qed

lemma hex_val_zeros: "hex_val (replicate k (CHR ''0'') @ s) = hex_val s"
proof -
  have "foldl (\<lambda>acc c. 16 * acc + hex_val_char c) 0 (replicate k (CHR ''0'')) = 0"
    by (induction k) (simp_all add: hex_val_char_def)
  then show ?thesis by (simp add: hex_val_def)
qed

lemma hex_val_c_fmt_X0 [simp]: "hex_val (c_fmt_X0 w n) = n"
  by (simp add: c_fmt_X0_def zero_pad_def hex_val_zeros)

lemma hex_nat_chars: "c \<in> set (hex_nat n) \<Longrightarrow> is_hex_char c"
proof (induction n rule: hex_nat.induct)
  case (1 n)
  then show ?case
    by (subst (asm) hex_nat.simps) (auto split: if_splits)
qed

lemma length_hex_nat_le: "n < 16 ^ k \<Longrightarrow> 0 < k \<Longrightarrow> length (hex_nat n) \<le> k"
proof (induction n arbitrary: k rule: hex_nat.induct)
  case (1 n)
  show ?case
  proof (cases "n < 16")
    case True
    with "1.prems" show ?thesis by (subst hex_nat.simps) simp
  next
    case False
    then obtain k' where k: "k = Suc k'" and "0 < k'"
      using "1.prems" by (cases k; cases "k - 1") auto
    with "1.prems" have "n div 16 < 16 ^ k'"
      by (simp add: less_mult_imp_div_less mult.commute)
    with "1.IH" False \<open>0 < k'\<close> have "length (hex_nat (n div 16)) \<le> k'"
      by simp
    with False k show ?thesis by (subst hex_nat.simps) simp
  qed
qed

lemma length_c_fmt_X0: "n < 16 ^ w \<Longrightarrow> 0 < w \<Longrightarrow> length (c_fmt_X0 w n) = w"
  using length_hex_nat_le [of n w] by (simp add: c_fmt_X0_def zero_pad_def)

lemma c_fmt_X0_chars: "c \<in> set (c_fmt_X0 w n) \<Longrightarrow> is_hex_char c"
  by (auto simp: c_fmt_X0_def zero_pad_def is_hex_char_def is_dec_char_def dest: hex_nat_chars)

subsection \<open>Lengths of the printed values\<close>

lemma length_c_fmt_d_le:
  assumes "\<bar>i\<bar> < 10 ^ k" and "0 < k"
  shows "length (c_fmt_d i) \<le> Suc k"
proof -
  have "nat \<bar>i\<bar> < 10 ^ k"
    using assms(1) by (simp add: nat_less_iff)
  then have "length (dec_nat (nat \<bar>i\<bar>)) \<le> k"
    using assms(2) by (rule length_dec_nat_le)
  then show ?thesis
    by (cases "i < 0") (simp_all add: c_fmt_d_def)
qed

lemma length_zero_pad_digits:
  "r < 10 ^ p \<Longrightarrow> 0 < p \<Longrightarrow> length (zero_pad p (dec_nat r)) = p"
  using length_dec_nat_le [of r p] by (simp add: zero_pad_def)

lemma length_pad_left: "length (pad_left w s) = max w (length s)"
  by (simp add: pad_left_def)

lemma length_dtostrf_scaled_le:
  assumes "nat \<bar>v\<bar> < 10 ^ (k + p)" and "0 < k" and "0 < p"
  shows "length (dtostrf_scaled v w p) \<le> max w (k + p + 2)"
proof -
  have "nat \<bar>v\<bar> div 10 ^ p < 10 ^ k"
    using assms(1) by (simp add: div_less_iff_less_mult power_add)
  then have q: "length (dec_nat (nat \<bar>v\<bar> div 10 ^ p)) \<le> k"
    using assms(2) by (rule length_dec_nat_le)
  have r: "length (zero_pad p (dec_nat (nat \<bar>v\<bar> mod 10 ^ p))) = p"
    using assms(3) by (simp add: length_zero_pad_digits)
  let ?A = "if v < 0 then ''-'' else ([] :: string)"
  let ?C = "if p = 0 then [] else CHR ''.'' # zero_pad p (dec_nat (nat \<bar>v\<bar> mod 10 ^ p))"
  have a: "length ?A \<le> 1"
    by simp
  have c: "length ?C = Suc p"
    using r assms(3) by simp
  have "length (?A @ dec_nat (nat \<bar>v\<bar> div 10 ^ p) @ ?C) \<le> k + p + 2"
    using a q c by (simp only: length_append; linarith)
  then have "max w (length (?A @ dec_nat (nat \<bar>v\<bar> div 10 ^ p) @ ?C)) \<le> max w (k + p + 2)"
    by (metis max.mono order_refl)
  then show ?thesis
    by (simp only: dtostrf_scaled_def length_pad_left)
qed

end
