(* ===== verification/Value_Formatter.thy ===== *)
theory Value_Formatter
  imports Protocol C_Format
begin

text \<open>
  The value formatters \<^verbatim>\<open>decode_bat\<close> \<dots> \<^verbatim>\<open>decode_counter\<close> of
  \<^verbatim>\<open>ULPNode_RF_Protocol.cpp\<close>. Each C function writes one fragment
  \<^verbatim>\<open>"key<index>":<value>\<close> into the shared scratch buffer \<^verbatim>\<open>pbuf\<close> with
  \<^verbatim>\<open>sprintf_P\<close> (and appends a fixed-point value with \<^verbatim>\<open>dtostrf\<close>) and returns
  \<^verbatim>\<open>pbuf\<close>; each model returns the text written. \<open>idx\<close> is the index suffix string.
  Two formatters carry their C defects into the model: \<^verbatim>\<open>decode_hum\<close> prints the raw
  value with \<^verbatim>\<open>%d\<close> before the scaled one, and \<^verbatim>\<open>decode_volt\<close>'s format has a
  second \<^verbatim>\<open>%s\<close> with no argument, whose text is \<open>stray_s env\<close>.
\<close>

definition decode_bat :: "u16 \<Rightarrow> string \<Rightarrow> string" where
  \<open>decode_bat bat idx = ''"bat'' @ idx @ ''":'' @ dtostrf_scaled (uint bat) 5 3\<close>

definition decode_lowbat :: "byte \<Rightarrow> string \<Rightarrow> string" where
  \<open>decode_lowbat low idx = ''"lowbat'' @ idx @ ''":'' @ [char_of (48 + unat low)]\<close>

definition decode_volt :: "c_env \<Rightarrow> u16 \<Rightarrow> string \<Rightarrow> string" where
  \<open>decode_volt env volt idx =
     ''"volt'' @ idx @ ''":'' @ stray_s env @ dtostrf_scaled (uint volt) 5 3\<close>

definition decode_temp :: "u16 \<Rightarrow> string \<Rightarrow> string" where
  \<open>decode_temp temp idx = ''"temp'' @ idx @ ''":'' @ dtostrf_scaled (sint temp) 4 2\<close>

definition decode_hum :: "c_env \<Rightarrow> u16 \<Rightarrow> string \<Rightarrow> string" where
  \<open>decode_hum env hum idx =
     ''"hum'' @ idx @ ''":'' @ c_fmt_d (promote_u16_d (platform env) hum)
       @ dtostrf_scaled (uint hum) 4 1\<close>

definition decode_lux :: "u16 \<Rightarrow> string \<Rightarrow> string" where
  \<open>decode_lux lux idx = ''"lux'' @ idx @ ''":'' @ dtostrf_scaled (uint lux) 3 1\<close>

definition decode_co2 :: "c_env \<Rightarrow> u16 \<Rightarrow> string \<Rightarrow> string" where
  \<open>decode_co2 env co2 idx = ''"co2'' @ idx @ ''":'' @ c_fmt_d (promote_u16_d (platform env) co2)\<close>

definition decode_rssi :: "byte \<Rightarrow> string \<Rightarrow> string" where
  \<open>decode_rssi rssi idx = ''"rssi'' @ idx @ ''":'' @ c_fmt_d (sint rssi)\<close>

definition decode_counter :: "u32 \<Rightarrow> string \<Rightarrow> string" where
  \<open>decode_counter counter idx = ''"count'' @ idx @ ''":'' @ c_fmt_d (sint counter)\<close>

lemmas formatter_defs [fmt_simps] = decode_bat_def decode_lowbat_def decode_volt_def
  decode_temp_def decode_hum_def decode_lux_def decode_co2_def decode_rssi_def decode_counter_def

text \<open>\<^verbatim>\<open>decode_digital_io\<close> and \<^verbatim>\<open>decode_analog_io\<close> (never called by the
  dispatcher) print their \<^verbatim>\<open>char *pin\<close> argument with \<^verbatim>\<open>%d\<close>, that is the
  pin string's address \<open>pin\<close>; \<open>hi\<close> is what AVR's \<^verbatim>\<open>%ld\<close> reads after the
  two bytes of the analog value.\<close>

definition decode_digital_io :: "c_env \<Rightarrow> byte \<Rightarrow> u32 \<Rightarrow> string" where
  \<open>decode_digital_io env value pin =
     ''"d'' @ c_fmt_d (ptr_d (platform env) pin) @ ''":'' @ c_fmt_d (uint value)\<close>

definition decode_analog_io :: "c_env \<Rightarrow> u16 \<Rightarrow> u32 \<Rightarrow> u16 \<Rightarrow> string" where
  \<open>decode_analog_io env value pin hi =
     ''"a'' @ c_fmt_d (ptr_d (platform env) pin) @ ''":'' @ c_fmt_d (long_of_u16_arg (platform env) value hi)\<close>

subsection \<open>Signed decimal readings of machine values\<close>

lemma c_fmt_d_sint_u32:
  fixes c :: u32
  shows "c_fmt_d (sint c) =
    (if unat c < 2147483648 then dec_nat (unat c) else CHR ''-'' # dec_nat (4294967296 - unat c))"
  unfolding sint_u32_cases c_fmt_d_wrap [OF unat_u32_bound] by simp

lemma c_fmt_d_sint_u16:
  fixes c :: u16
  shows "c_fmt_d (sint c) =
    (if unat c < 32768 then dec_nat (unat c) else CHR ''-'' # dec_nat (65536 - unat c))"
  unfolding sint_u16_cases c_fmt_d_wrap [OF unat_u16_bound] by simp

lemma c_fmt_d_uint: "c_fmt_d (uint w) = dec_nat (unat w)"
  by (simp add: c_fmt_d_def)

lemma c_fmt_d_promote_u16:
  "c_fmt_d (promote_u16_d pf w) =
    (if pf = SPARK \<or> unat w < 32768 then dec_nat (unat w) else CHR ''-'' # dec_nat (65536 - unat w))"
  by (cases pf) (simp_all add: promote_u16_d_def c_fmt_d_sint_u16 c_fmt_d_uint)

subsection \<open>Properties of the formatters\<close>

text \<open>C30: \<^verbatim>\<open>decode_counter\<close> prints its \<^verbatim>\<open>uint32_t\<close> with \<^verbatim>\<open>%ld\<close>, a
  signed 32-bit conversion on both targets: a count of \<open>2^31\<close> or more is printed as the
  negative number \<open>count - 2^32\<close>.\<close>

theorem decode_counter_text:
  \<open>decode_counter c idx = ''"count'' @ idx @ ''":'' @
     (if unat c < 2147483648 then dec_nat (unat c) else CHR ''-'' # dec_nat (4294967296 - unat c))\<close>
  by (simp add: decode_counter_def c_fmt_d_sint_u32)

text \<open>C31: \<^verbatim>\<open>decode_co2\<close> prints its \<^verbatim>\<open>uint16_t\<close> with \<^verbatim>\<open>%d\<close>: exact on the
  32-bit-int Spark target and below 32768 on AVR, but a reading of 32768 or more prints
  as a negative number on AVR, whose \<open>int\<close> has 16 bits.\<close>

theorem decode_co2_text:
  \<open>decode_co2 env w idx = ''"co2'' @ idx @ ''":'' @
     (if platform env = SPARK \<or> unat w < 32768 then dec_nat (unat w)
      else CHR ''-'' # dec_nat (65536 - unat w))\<close>
  by (simp add: decode_co2_def c_fmt_d_promote_u16)

lemma decode_temp_value:
  \<open>read_fixed 2 (drop (length (''"temp'' @ idx @ ''":'')) (decode_temp t idx)) = sint t\<close>
  by (simp add: decode_temp_def)

lemma decode_bat_value:
  \<open>read_fixed 3 (drop (length (''"bat'' @ idx @ ''":'')) (decode_bat b idx)) = uint b\<close>
  by (simp add: decode_bat_def)

lemma decode_lux_value:
  \<open>read_fixed 1 (drop (length (''"lux'' @ idx @ ''":'')) (decode_lux x idx)) = uint x\<close>
  by (simp add: decode_lux_def)

text \<open>C28: the fixed-point formatters are exact: the text after the key of a temperature,
  battery or luminosity fragment reads back as the transmitted integer, that is the
  fragment denotes \<open>temp/100\<close>, \<open>bat/1000\<close> and \<open>lux/10\<close>.\<close>

theorem fixed_point_fragments_read_back:
  \<open>read_fixed 2 (drop (length (''"temp'' @ idx @ ''":'')) (decode_temp t idx)) = sint t \<and>
   read_fixed 3 (drop (length (''"bat'' @ idx @ ''":'')) (decode_bat b idx)) = uint b \<and>
   read_fixed 1 (drop (length (''"lux'' @ idx @ ''":'')) (decode_lux x idx)) = uint x\<close>
  by (simp only: decode_temp_value decode_bat_value decode_lux_value simp_thms)

text \<open>C32: \<^verbatim>\<open>decode_volt\<close> writes the text of its unmatched \<^verbatim>\<open>%s\<close> between the key
  and the value; the value after it still reads back as the voltage in millivolts.\<close>

theorem decode_volt_layout:
  \<open>take (length (''"volt'' @ idx @ ''":'')) (decode_volt env v idx) = ''"volt'' @ idx @ ''":'' \<and>
   take (length (stray_s env)) (drop (length (''"volt'' @ idx @ ''":'')) (decode_volt env v idx))
     = stray_s env \<and>
   read_fixed 3 (drop (length (''"volt'' @ idx @ ''":'' @ stray_s env)) (decode_volt env v idx))
     = uint v\<close>
  by (simp add: decode_volt_def)

text \<open>C33: the low-battery flag is printed as the character \<open>'0' + low\<close>: a decimal
  digit exactly when the flag byte is below 10.\<close>

theorem decode_lowbat_digit:
  "is_dec_char (last (decode_lowbat low idx)) \<longleftrightarrow> unat low < 10"
proof -
  have "(48 + unat low) mod 256 = (if unat low < 208 then 48 + unat low else unat low - 208)"
    using unat_byte_bound [of low] by (auto simp: mod_if)
  with unat_byte_bound [of low] show ?thesis
    by (auto simp: decode_lowbat_def is_dec_char_def)
qed

subsection \<open>Fragment lengths\<close>

lemma abs_sint_u16: "\<bar>sint (w :: u16)\<bar> < 10 ^ 5"
  using sint_ge [of w] sint_lt [of w] by simp

lemma abs_uint_u16: "\<bar>uint (w :: u16)\<bar> < 10 ^ 5"
  using uint_lt2p [of w] by simp

lemma abs_sint_byte: "\<bar>sint (w :: byte)\<bar> < 10 ^ 3"
  using sint_ge [of w] sint_lt [of w] by simp

lemma abs_sint_u32: "\<bar>sint (w :: u32)\<bar> < 10 ^ 10"
  using sint_ge [of w] sint_lt [of w] by simp

lemma abs_promote_u16: "\<bar>promote_u16_d pf w\<bar> < 10 ^ 5"
  using abs_sint_u16 [of w] abs_uint_u16 [of w] by (cases pf) (simp_all add: promote_u16_d_def)

lemma nat_abs_less: "\<bar>i\<bar> < 10 ^ n \<Longrightarrow> nat \<bar>i\<bar> < 10 ^ n"
  by (simp add: nat_less_iff)

lemma formatter_lengths:
  assumes "length idx \<le> 1"
  shows "length (decode_temp w idx) \<le> 15" and "length (decode_hum env w idx) \<le> 20"
    and "length (decode_lux w idx) \<le> 14" and "length (decode_co2 env w idx) \<le> 13"
    and "length (decode_volt env w idx) \<le> 15 + length (stray_s env)"
    and "length (decode_bat w idx) \<le> 14" and "length (decode_rssi b idx) \<le> 12"
    and "length (decode_counter c idx) \<le> 20" and "length (decode_lowbat b idx) \<le> 11"
proof -
  have t: "length (dtostrf_scaled (sint w) 4 2) \<le> 7"
    using length_dtostrf_scaled_le [of "sint w" 3 2 4] abs_sint_u16 [of w] by (auto simp: nat_abs_less)
  have u1: "length (dtostrf_scaled (uint w) 4 1) \<le> 7"
    using length_dtostrf_scaled_le [of "uint w" 4 1 4] unat_u16_bound [of w] by simp
  have u1': "length (dtostrf_scaled (uint w) 3 1) \<le> 7"
    using length_dtostrf_scaled_le [of "uint w" 4 1 3] unat_u16_bound [of w] by simp
  have u3: "length (dtostrf_scaled (uint w) 5 3) \<le> 7"
    using length_dtostrf_scaled_le [of "uint w" 2 3 5] unat_u16_bound [of w] by simp
  have d16: "length (c_fmt_d (promote_u16_d (platform env) w)) \<le> 6"
    using length_c_fmt_d_le [OF abs_promote_u16, of "platform env" w] by simp
  have d8: "length (c_fmt_d (sint b)) \<le> 4"
    using length_c_fmt_d_le [OF abs_sint_byte, of b] by simp
  have d32: "length (c_fmt_d (sint c)) \<le> 11"
    using length_c_fmt_d_le [OF abs_sint_u32, of c] by simp
  show "length (decode_temp w idx) \<le> 15" using t assms by (simp add: decode_temp_def)
  show "length (decode_hum env w idx) \<le> 20" using u1 d16 assms by (simp add: decode_hum_def)
  show "length (decode_lux w idx) \<le> 14" using u1' assms by (simp add: decode_lux_def)
  show "length (decode_co2 env w idx) \<le> 13" using d16 assms by (simp add: decode_co2_def)
  show "length (decode_volt env w idx) \<le> 15 + length (stray_s env)"
    using u3 assms by (simp add: decode_volt_def)
  show "length (decode_bat w idx) \<le> 14" using u3 assms by (simp add: decode_bat_def)
  show "length (decode_rssi b idx) \<le> 12" using d8 assms by (simp add: decode_rssi_def)
  show "length (decode_counter c idx) \<le> 20" using d32 assms by (simp add: decode_counter_def)
  show "length (decode_lowbat b idx) \<le> 11" using assms by (simp add: decode_lowbat_def)
qed

end
