(* ===== verification/Json_Buffer.thy ===== *)
theory Json_Buffer
  imports C_Format
begin

text \<open>
  The output assembler: the global text buffer \<^verbatim>\<open>char json_str[128]\<close>, opened by
  \<^verbatim>\<open>sprintf_P(json_str, "{\"id\":%d, \"rssi\":%d", ...)\<close>, extended by
  \<^verbatim>\<open>add_json_data\<close> and closed by \<^verbatim>\<open>strcat(json_str, "}")\<close>. The buffer is
  modelled by its contents, an unbounded string; whether the contents fit the C array
  (at most 127 characters and the terminating NUL) is a property stated about it.
  \<^verbatim>\<open>add_json_data\<close> reads the current length into a \<^verbatim>\<open>uint8_t\<close>, so the model
  keeps that truncation, and compares \<open>l + strlen(json)\<close> with the array size although
  it then writes \<open>", "\<close>, the fragment and a NUL.
\<close>

definition json_str_size :: nat where
  "json_str_size = 128"

definition add_json_data :: "string \<Rightarrow> string \<Rightarrow> string" where
  "add_json_data str json =
     (let l = length str mod 256
      in if l + length json < json_str_size then take l str @ '', '' @ json else str)"

definition json_open :: "byte \<Rightarrow> byte \<Rightarrow> string" where
  \<open>json_open nodeid rssi = ''{"id":'' @ c_fmt_d (uint nodeid) @ '', "rssi":'' @ c_fmt_d (sint rssi)\<close>

definition json_close :: "string \<Rightarrow> string" where
  "json_close str = str @ ''}''"

definition fits_json_str :: "string \<Rightarrow> bool" where
  "fits_json_str s \<longleftrightarrow> length s < json_str_size"

subsection \<open>Appending fragments\<close>

lemma add_json_data_short:
  "length str < 256 \<Longrightarrow>
   add_json_data str json = (if length str + length json < 128 then str @ '', '' @ json else str)"
  by (simp add: add_json_data_def json_str_size_def)

lemma add_json_data_fits [simp]:
  "length str + length json < 128 \<Longrightarrow> add_json_data str json = str @ '', '' @ json"
  by (simp add: add_json_data_short)

lemma length_add_json_data_le:
  "length str \<le> 129 \<Longrightarrow> length (add_json_data str json) \<le> 129"
  by (simp add: add_json_data_short)

lemma add_json_data_prefix:
  "length str < 256 \<Longrightarrow> prefix str (add_json_data str json)"
  by (simp add: add_json_data_short)

lemma foldl_add_json_data_bound:
  "length str \<le> 129 \<Longrightarrow> length (foldl add_json_data str fs) \<le> 129"
  by (induction fs arbitrary: str) (simp_all add: length_add_json_data_le)

lemma foldl_add_json_data_prefix:
  "length str \<le> 129 \<Longrightarrow> prefix str (foldl add_json_data str fs)"
proof (induction fs arbitrary: str)
  case Nil
  then show ?case by simp
next
  case (Cons f fs)
  then have "prefix str (add_json_data str f)"
    by (simp add: add_json_data_prefix)
  moreover have "prefix (add_json_data str f) (foldl add_json_data (add_json_data str f) fs)"
    using Cons by (simp add: length_add_json_data_le)
  ultimately show ?case
    by (simp add: prefix_order.trans)
qed

lemma foldl_add_json_data_all:
  "\<forall>f\<in>set fs. length f \<le> 23 \<Longrightarrow> length str + 25 * length fs \<le> 129 \<Longrightarrow>
   foldl add_json_data str fs = str @ concat (map (\<lambda>f. '', '' @ f) fs)"
proof (induction fs arbitrary: str)
  case Nil
  then show ?case by simp
next
  case (Cons f fs)
  then have "add_json_data str f = str @ '', '' @ f"
    by (intro add_json_data_fits) simp
  with Cons show ?case
    by simp
qed

text \<open>C21: the capacity check is two characters short: from contents that fit
  \<^verbatim>\<open>json_str\<close>, an append overflows the array exactly when contents and fragment
  together are 126 or 127 characters long, and then the text reaches 128 or 129
  characters (plus its NUL) in a 128-byte array.\<close>

theorem add_json_data_overflow:
  "fits_json_str str \<Longrightarrow>
   \<not> fits_json_str (add_json_data str json) \<longleftrightarrow> length str + length json \<in> {126, 127}"
  by (auto simp: fits_json_str_def json_str_size_def add_json_data_short)

theorem add_json_data_overflow_witness:
  "fits_json_str (replicate 120 CHR ''a'') \<and>
   (\<not> fits_json_str (add_json_data (replicate 120 CHR ''a'') ''xxxxxx'') \<longleftrightarrow>
      length (replicate 120 CHR ''a'') + length ''xxxxxx'' \<in> {126, 127})"
proof -
  have "fits_json_str (replicate 120 CHR ''a'')"
    by (simp add: fits_json_str_def json_str_size_def)
  then show ?thesis
    using add_json_data_overflow [of "replicate 120 CHR ''a''" "''xxxxxx''"] by simp
qed

end
