(* ===== verification/Record_Decoder.thy ===== *)
theory Record_Decoder
  imports Value_Formatter Json_Buffer
begin

unbundle bit_operations_syntax

text \<open>
  The record decoder: the \<^verbatim>\<open>do { ... } while (l > 1 && !error)\<close> loop of
  \<^verbatim>\<open>decode_received_data\<close> (lines 288--420) that walks the data records of a payload.
  Its state is the record \<open>rx_loop\<close>: the two global buffers (\<^verbatim>\<open>pbuf\<close>,
  \<^verbatim>\<open>json_str\<close>) and the loop's locals \<^verbatim>\<open>pdat\<close> (the cursor, an index into the
  payload), \<^verbatim>\<open>l\<close> (the \<^verbatim>\<open>uint8_t\<close> count of bytes left from the cursor),
  \<^verbatim>\<open>data_type\<close> (the current tag byte) and \<^verbatim>\<open>error\<close>. One iteration is
  \<open>record_step\<close>; \<open>select_record\<close> is its \<^verbatim>\<open>if ... else if\<close> chain of kind tests and
  length guards; \<open>record_loop\<close> is the loop and \<open>decode_records\<close> its set-up.
  The abstract specification is \<open>parse_records\<close>, a list parser that splits the
  record bytes into readings, and the loop is proved to produce exactly the fragments
  of the readings it returns, in order, and to abort exactly where it aborts.
\<close>

record ulp_globals =
  pbuf :: string
  json_str :: string

record rx_loop = ulp_globals +
  pdat :: nat
  lrem :: byte
  data_type :: byte
  error :: bool

definition str_idx :: "byte \<Rightarrow> string" where
  "str_idx t =
     (let c = char_of (48 + unat (t AND NOT RF_DAT_SENSOR_MASK))
      in if c = CHR ''0'' then [] else [c])"

definition select_record ::
    "c_env \<Rightarrow> byte list \<Rightarrow> nat \<Rightarrow> byte \<Rightarrow> byte \<Rightarrow> string \<Rightarrow> (nat \<times> string) option" where
  "select_record env p pd l t idx =
     (if isDataTemp t \<and> sizeof_s_temp \<le> unat l
        then Some (sizeof_s_temp, decode_temp (rd_u16 p (Suc pd)) idx)
      else if isDataHum t \<and> sizeof_s_hum \<le> unat l
        then Some (sizeof_s_hum, decode_hum env (rd_u16 p (Suc pd)) idx)
      else if isDataLux t \<and> sizeof_s_lux \<le> unat l
        then Some (sizeof_s_lux, decode_lux (rd_u16 p (Suc pd)) idx)
      else if isDataCO2 t \<and> sizeof_s_co2 \<le> unat l
        then Some (sizeof_s_co2, decode_co2 env (rd_u16 p (Suc pd)) idx)
      else if isDataVolt t \<and> sizeof_s_volt \<le> unat l
        then Some (sizeof_s_volt, decode_volt env (rd_u16 p (Suc pd)) idx)
      else if isDataBat t \<and> sizeof_s_volt \<le> unat l
        then Some (sizeof_s_volt, decode_bat (rd_u16 p (Suc pd)) idx)
      else if isDataRSSI t \<and> sizeof_s_rssi \<le> unat l
        then Some (sizeof_s_rssi, decode_rssi (rd_u8 p (Suc pd)) idx)
      else if isDataCounter t \<and> sizeof_s_counter \<le> unat l
        then Some (sizeof_s_counter, decode_counter (rd_u32 p (Suc pd)) idx)
      else if isDataLowBat t \<and> sizeof_s_lowbat \<le> unat l
        then Some (sizeof_s_lowbat, decode_lowbat (rd_u8 p (Suc pd)) idx)
      else None)"

definition record_step :: "c_env \<Rightarrow> byte list \<Rightarrow> rx_loop \<Rightarrow> rx_loop" where
  "record_step env p s =
     (case select_record env p (pdat s) (lrem s) (data_type s) (str_idx (data_type s)) of
        None \<Rightarrow> s\<lparr>error := True\<rparr>
      | Some (sz, pval) \<Rightarrow>
          (let s1 = s\<lparr>pbuf := pval, json_str := add_json_data (json_str s) pval,
                      lrem := lrem s - word_of_nat sz, error := False\<rparr>
           in if 2 \<le> lrem s1
              then s1\<lparr>pdat := pdat s + sz, data_type := p ! (pdat s + sz)\<rparr>
              else s1))"

subsection \<open>The abstract record stream\<close>

text \<open>The specification's view of a record stream: each record is a tag byte whose kind
  bits name a sensor, followed by that sensor's fixed number of value bytes.\<close>

datatype sensor = Temp | Hum | Lux | CO2 | Volt | Bat | RSSI | Counter | LowBat

primrec kind_code :: "sensor \<Rightarrow> byte" where
  "kind_code Temp = RF_DAT_TEMP"
| "kind_code Hum = RF_DAT_HUM"
| "kind_code Lux = RF_DAT_LUX"
| "kind_code CO2 = RF_DAT_CO2"
| "kind_code Volt = RF_DAT_VOLT"
| "kind_code Bat = RF_DAT_BAT"
| "kind_code RSSI = RF_DAT_RSSI"
| "kind_code Counter = RF_DAT_COUNTER"
| "kind_code LowBat = RF_DAT_LOWBAT"

primrec value_width :: "sensor \<Rightarrow> nat" where
  "value_width Temp = 2"
| "value_width Hum = 2"
| "value_width Lux = 2"
| "value_width CO2 = 2"
| "value_width Volt = 2"
| "value_width Bat = 2"
| "value_width RSSI = 1"
| "value_width Counter = 4"
| "value_width LowBat = 1"

definition sensor_of :: "byte \<Rightarrow> sensor option" where
  "sensor_of t = find (\<lambda>k. t AND RF_DAT_SENSOR_MASK = kind_code k)
     [Temp, Hum, Lux, CO2, Volt, Bat, RSSI, Counter, LowBat]"

definition index_suffix :: "byte \<Rightarrow> string" where
  "index_suffix t = (if t AND 3 = 0 then [] else [digit_char (unat (t AND 3))])"

fun render :: "c_env \<Rightarrow> sensor \<Rightarrow> string \<Rightarrow> byte list \<Rightarrow> string" where
  "render env Temp idx v = decode_temp (rd_u16 v 0) idx"
| "render env Hum idx v = decode_hum env (rd_u16 v 0) idx"
| "render env Lux idx v = decode_lux (rd_u16 v 0) idx"
| "render env CO2 idx v = decode_co2 env (rd_u16 v 0) idx"
| "render env Volt idx v = decode_volt env (rd_u16 v 0) idx"
| "render env Bat idx v = decode_bat (rd_u16 v 0) idx"
| "render env RSSI idx v = decode_rssi (rd_u8 v 0) idx"
| "render env Counter idx v = decode_counter (rd_u32 v 0) idx"
| "render env LowBat idx v = decode_lowbat (rd_u8 v 0) idx"

datatype reading = Reading (r_kind: sensor) (r_tag: byte) (r_val: "byte list")

definition render_reading :: "c_env \<Rightarrow> reading \<Rightarrow> string" where
  "render_reading env r = render env (r_kind r) (index_suffix (r_tag r)) (r_val r)"

function parse_records :: "byte list \<Rightarrow> reading list \<times> bool" where
  "parse_records bs =
     (if length bs < 2 then ([], False)
      else case sensor_of (hd bs) of
             None \<Rightarrow> ([], True)
           | Some k \<Rightarrow>
               if length bs < Suc (value_width k) then ([], True)
               else (let (rs, e) = parse_records (drop (Suc (value_width k)) bs)
                     in (Reading k (hd bs) (take (value_width k) (tl bs)) # rs, e)))"
  by pat_completeness auto
termination
  by (relation "measure length") auto

declare parse_records.simps [simp del]

definition reading_bytes :: "reading \<Rightarrow> byte list" where
  "reading_bytes r = r_tag r # r_val r"

definition wf_reading :: "reading \<Rightarrow> bool" where
  "wf_reading r \<longleftrightarrow> sensor_of (r_tag r) = Some (r_kind r) \<and> length (r_val r) = value_width (r_kind r)"

text \<open>The loop invariant: the cursor and the remaining count delimit a window of the
  payload that ends inside it, holds a tag and one more byte, and starts at the current
  tag. The window is the part of the stream the parser has still to read.\<close>

definition rx_window :: "byte list \<Rightarrow> rx_loop \<Rightarrow> byte list" where
  "rx_window p s = take (unat (lrem s)) (drop (pdat s) p)"

definition rx_inv :: "byte list \<Rightarrow> rx_loop \<Rightarrow> bool" where
  "rx_inv p s \<longleftrightarrow> pdat s + unat (lrem s) \<le> length p \<and> 2 \<le> unat (lrem s) \<and> data_type s = p ! pdat s"

subsection \<open>The loop\<close>

lemma select_record_size:
  "select_record env p pd l t idx = Some (sz, v) \<Longrightarrow> 2 \<le> sz \<and> sz \<le> unat l"
  by (auto simp: select_record_def sizeof_defs split: if_splits)

lemma record_step_decreases:
  "\<not> error (record_step env p s) \<Longrightarrow> unat (lrem (record_step env p s)) < unat (lrem s)"
  by (auto simp: record_step_def Let_def unat_sub_le_word dest!: select_record_size
           split: option.splits if_splits)

function record_loop :: "c_env \<Rightarrow> byte list \<Rightarrow> rx_loop \<Rightarrow> rx_loop" where
  "record_loop env p s =
     (let s' = record_step env p s
      in if 1 < lrem s' \<and> \<not> error s' then record_loop env p s' else s')"
  by pat_completeness auto
termination
  by (relation "measure (\<lambda>(env, p, s). unat (lrem s))") (auto simp: record_step_decreases)

declare record_loop.simps [simp del]

definition decode_records :: "c_env \<Rightarrow> byte list \<Rightarrow> byte \<Rightarrow> 'a ulp_globals_scheme \<Rightarrow> rx_loop" where
  "decode_records env p len g =
     record_loop env p
       \<lparr>pbuf = pbuf g, json_str = json_str g, pdat = 1, lrem = len - 1,
        data_type = p ! 1, error = False\<rparr>"

subsection \<open>The guard chain is a table lookup\<close>

lemma select_record_eq:
  assumes "Suc pd \<le> length p"
  shows "select_record env p pd l t idx =
    (case sensor_of t of
       None \<Rightarrow> None
     | Some k \<Rightarrow> if Suc (value_width k) \<le> unat l
                 then Some (Suc (value_width k), render env k idx (drop (Suc pd) p)) else None)"
  using assms
  by (simp add: select_record_def sensor_of_def kind_defs sizeof_defs rd_u16_drop rd_u8_drop rd_u32_drop)

lemma render_take:
  "value_width k \<le> n \<Longrightarrow> render env k idx (take n v) = render env k idx v"
  by (cases k) (simp_all add: read_simps)

lemma str_idx_eq_index_suffix: "str_idx t = index_suffix t"
proof -
  have "NOT RF_DAT_SENSOR_MASK = (3 :: byte)"
    unfolding RF_DAT_SENSOR_MASK_def by code_simp
  then have mask: "t AND NOT RF_DAT_SENSOR_MASK = t AND 3"
    by (simp only:)
  have "unat (t AND 3) \<le> unat (3 :: byte)"
    by (rule word_and_le1 [THEN word_le_nat_alt [THEN iffD1]])
  then have small: "unat (t AND 3) < 4"
    by simp
  have "char_of (48 + unat (t AND 3)) = CHR ''0'' \<longleftrightarrow>
        of_char (char_of (48 + unat (t AND 3))) = (of_char (CHR ''0'') :: nat)"
    by (simp only: of_char_eq_iff)
  with small have "char_of (48 + unat (t AND 3)) = CHR ''0'' \<longleftrightarrow> unat (t AND 3) = 0"
    by simp
  then show ?thesis
    by (simp add: str_idx_def index_suffix_def mask digit_char_def Let_def unat_0_iff)
qed

subsection \<open>Unfolding the loop and the parser one step\<close>

lemma record_loop_stop:
  "\<not> (1 < lrem (record_step env p s) \<and> \<not> error (record_step env p s)) \<Longrightarrow>
   record_loop env p s = record_step env p s"
  by (subst record_loop.simps) (auto simp: Let_def)

lemma record_loop_go:
  "1 < lrem (record_step env p s) \<Longrightarrow> \<not> error (record_step env p s) \<Longrightarrow>
   record_loop env p s = record_loop env p (record_step env p s)"
  by (subst record_loop.simps) (simp add: Let_def)

lemma parse_records_short: "length bs < 2 \<Longrightarrow> parse_records bs = ([], False)"
  by (subst parse_records.simps) simp

lemma parse_records_unknown:
  "2 \<le> length bs \<Longrightarrow> sensor_of (hd bs) = None \<Longrightarrow> parse_records bs = ([], True)"
  by (subst parse_records.simps) simp

lemma parse_records_truncated:
  "2 \<le> length bs \<Longrightarrow> sensor_of (hd bs) = Some k \<Longrightarrow> length bs < Suc (value_width k) \<Longrightarrow>
   parse_records bs = ([], True)"
  by (subst parse_records.simps) simp

lemma parse_records_record:
  "2 \<le> length bs \<Longrightarrow> sensor_of (hd bs) = Some k \<Longrightarrow> Suc (value_width k) \<le> length bs \<Longrightarrow>
   parse_records bs =
     (Reading k (hd bs) (take (value_width k) (tl bs)) # fst (parse_records (drop (Suc (value_width k)) bs)),
      snd (parse_records (drop (Suc (value_width k)) bs)))"
  by (subst parse_records.simps) (simp add: split_beta)

subsection \<open>The loop refines the parser\<close>

lemma rx_window_facts:
  assumes "rx_inv p s"
  shows "length (rx_window p s) = unat (lrem s)" and "hd (rx_window p s) = data_type s"
    and "Suc (pdat s) \<le> length p"
    and "tl (rx_window p s) = take (unat (lrem s) - 1) (drop (Suc (pdat s)) p)"
  using assms by (auto simp: rx_window_def rx_inv_def hd_drop_conv_nth drop_Suc tl_take tl_drop)

lemma rx_window_advance:
  assumes "rx_inv p s" and "n \<le> unat (lrem s)"
  shows "drop n (rx_window p s) = take (unat (lrem s) - n) (drop (pdat s + n) p)"
  using assms by (simp add: rx_window_def rx_inv_def drop_take add.commute)

lemma record_step_abort:
  assumes "rx_inv p s"
    and "sensor_of (data_type s) = None \<or>
         (\<exists>k. sensor_of (data_type s) = Some k \<and> unat (lrem s) < Suc (value_width k))"
  shows "record_step env p s = s\<lparr>error := True\<rparr>"
  using assms rx_window_facts(3) [OF assms(1)]
  by (auto simp: record_step_def select_record_eq)

lemma record_step_record:
  fixes env :: c_env
  assumes inv: "rx_inv p s" and k: "sensor_of (data_type s) = Some k"
    and fits: "Suc (value_width k) \<le> unat (lrem s)"
  defines "frag \<equiv> render_reading env (Reading k (data_type s) (take (value_width k) (tl (rx_window p s))))"
  shows "record_step env p s =
    (let s1 = s\<lparr>pbuf := frag, json_str := add_json_data (json_str s) frag,
                lrem := lrem s - word_of_nat (Suc (value_width k)), error := False\<rparr>
     in if 2 \<le> lrem s1
        then s1\<lparr>pdat := pdat s + Suc (value_width k), data_type := p ! (pdat s + Suc (value_width k))\<rparr>
        else s1)"
proof -
  have "take (value_width k) (tl (rx_window p s)) = take (value_width k) (drop (Suc (pdat s)) p)"
    using fits by (simp add: rx_window_facts(4) [OF inv] min_def)
  then have "frag = render env k (str_idx (data_type s)) (drop (Suc (pdat s)) p)"
    by (simp add: frag_def render_reading_def render_take str_idx_eq_index_suffix)
  then show ?thesis
    using k fits rx_window_facts(3) [OF inv]
    by (simp add: record_step_def select_record_eq)
qed

theorem record_loop_refines:
  "rx_inv p s \<Longrightarrow>
   json_str (record_loop env p s) =
     foldl add_json_data (json_str s) (map (render_reading env) (fst (parse_records (rx_window p s)))) \<and>
   error (record_loop env p s) = snd (parse_records (rx_window p s))"
proof (induction env p s rule: record_loop.induct)
  case (1 env p s)
  note inv = "1.prems"
  have len: "2 \<le> length (rx_window p s)" and hd: "hd (rx_window p s) = data_type s"
    using inv rx_window_facts(1,2) [OF inv] by (auto simp: rx_inv_def)
  show ?case
  proof (cases "sensor_of (data_type s) = None \<or>
      (\<exists>k. sensor_of (data_type s) = Some k \<and> unat (lrem s) < Suc (value_width k))")
    case True
    with inv have step: "record_step env p s = s\<lparr>error := True\<rparr>"
      by (rule record_step_abort)
    then have "record_loop env p s = s\<lparr>error := True\<rparr>"
      by (simp add: record_loop_stop)
    moreover have "parse_records (rx_window p s) = ([], True)"
      using True len hd rx_window_facts(1) [OF inv]
      by (auto intro: parse_records_unknown parse_records_truncated)
    ultimately show ?thesis by simp
  next
    case False
    then obtain k where k: "sensor_of (data_type s) = Some k"
      and fits: "Suc (value_width k) \<le> unat (lrem s)"
      by (auto simp: not_less)
    define w where "w = Suc (value_width k)"
    define frag where "frag = render_reading env (Reading k (data_type s) (take (value_width k) (tl (rx_window p s))))"
    have l': "unat (lrem s - word_of_nat w) = unat (lrem s) - w"
      using fits unfolding w_def by (rule unat_sub_le_word)
    have parse: "parse_records (rx_window p s) =
        (Reading k (data_type s) (take (value_width k) (tl (rx_window p s))) #
           fst (parse_records (drop w (rx_window p s))), snd (parse_records (drop w (rx_window p s))))"
      using len hd k fits rx_window_facts(1) [OF inv] by (simp add: parse_records_record w_def)
    have win': "drop w (rx_window p s) = take (unat (lrem s) - w) (drop (pdat s + w) p)"
      using fits inv by (simp add: rx_window_advance w_def)
    show ?thesis
    proof (cases "2 \<le> unat (lrem s) - w")
      case True
      let ?s' = "record_step env p s"
      have s': "?s' = s\<lparr>pbuf := frag, json_str := add_json_data (json_str s) frag,
                  lrem := lrem s - word_of_nat w, error := False,
                  pdat := pdat s + w, data_type := p ! (pdat s + w)\<rparr>"
        using True l' record_step_record [OF inv k fits, of env]
        by (simp add: w_def frag_def word_le_nat_alt Let_def)
      have inv': "rx_inv p ?s'"
        using inv True l' by (simp add: s' rx_inv_def)
      have go: "record_loop env p s = record_loop env p ?s'"
        using True l' by (intro record_loop_go) (simp_all add: s' word_less_nat_alt)
      have "rx_window p ?s' = drop w (rx_window p s)"
        using l' win' by (simp add: s' rx_window_def)
      with "1.IH" [OF refl _ inv'] True l' show ?thesis
        by (simp add: go parse s' word_less_nat_alt frag_def)
    next
      case False
      let ?s' = "record_step env p s"
      have s': "?s' = s\<lparr>pbuf := frag, json_str := add_json_data (json_str s) frag,
                  lrem := lrem s - word_of_nat w, error := False\<rparr>"
        using False l' record_step_record [OF inv k fits, of env]
        by (simp add: w_def frag_def word_le_nat_alt Let_def)
      have stop: "record_loop env p s = ?s'"
        using False l' by (intro record_loop_stop) (simp add: s' word_less_nat_alt)
      have "parse_records (drop w (rx_window p s)) = ([], False)"
        using False fits rx_window_facts(1) [OF inv] by (intro parse_records_short) simp
      then show ?thesis
        by (simp add: stop s' parse frag_def)
    qed
  qed
qed

subsection \<open>Properties of the record stream\<close>

lemma value_width_pos: "0 < value_width k"
  by (cases k) simp_all

lemma parse_records_wf:
  "r \<in> set (fst (parse_records bs)) \<Longrightarrow> wf_reading r"
proof (induction bs rule: parse_records.induct)
  case (1 bs)
  show ?case
  proof (cases "2 \<le> length bs")
    case True
    then obtain k where k: "sensor_of (hd bs) = Some k" and fits: "Suc (value_width k) \<le> length bs"
      using "1.prems" by (subst (asm) parse_records.simps) (auto split: option.splits if_splits)
    show ?thesis
      using "1.prems" "1.IH" [OF _ k] True k fits
      by (auto simp: parse_records_record wf_reading_def not_less)
  next
    case False
    with "1.prems" show ?thesis by (simp add: parse_records_short)
  qed
qed

lemma reading_bytes_Reading [simp]: "reading_bytes (Reading k t v) = t # v"
  by (simp add: reading_bytes_def)

lemma parse_records_stop:
  "\<not> (2 \<le> length bs \<and> (\<exists>k. sensor_of (hd bs) = Some k \<and> Suc (value_width k) \<le> length bs)) \<Longrightarrow>
   fst (parse_records bs) = [] \<and> (snd (parse_records bs) \<longleftrightarrow> 2 \<le> length bs)"
  by (cases "length bs < 2"; cases "sensor_of (hd bs)")
     (auto simp: parse_records_short parse_records_unknown parse_records_truncated not_le)

lemma split_record_bytes:
  "bs \<noteq> [] \<Longrightarrow> (hd bs # take n (tl bs)) @ drop (Suc n) bs = bs"
  by (cases bs) simp_all

lemma parse_records_tiles:
  "prefix (concat (map reading_bytes (fst (parse_records bs)))) bs \<and>
   (\<not> snd (parse_records bs) \<longrightarrow> length bs - length (concat (map reading_bytes (fst (parse_records bs)))) < 2)"
proof (induction bs rule: parse_records.induct)
  case (1 bs)
  show ?case
  proof (cases "2 \<le> length bs \<and> (\<exists>k. sensor_of (hd bs) = Some k \<and> Suc (value_width k) \<le> length bs)")
    case True
    then obtain k where len: "2 \<le> length bs" and k: "sensor_of (hd bs) = Some k"
      and fits: "Suc (value_width k) \<le> length bs"
      by blast
    let ?rest = "drop (Suc (value_width k)) bs"
    let ?c = "concat (map reading_bytes (fst (parse_records ?rest)))"
    have IH: "prefix ?c ?rest \<and> (\<not> snd (parse_records ?rest) \<longrightarrow> length ?rest - length ?c < 2)"
      using "1.IH" [OF _ k] len fits by (simp add: not_less)
    note step = parse_records_record [OF len k fits]
    have bs: "(hd bs # take (value_width k) (tl bs)) @ ?rest = bs"
      using len by (intro split_record_bytes) auto
    have "prefix ((hd bs # take (value_width k) (tl bs)) @ ?c) ((hd bs # take (value_width k) (tl bs)) @ ?rest)"
      using IH by simp
    then have pre: "prefix (concat (map reading_bytes (fst (parse_records bs)))) bs"
      by (simp only: bs step fst_conv list.map concat.simps reading_bytes_Reading)
    have "length (concat (map reading_bytes (fst (parse_records bs)))) = Suc (value_width k) + length ?c"
      using fits by (simp add: step)
    then have diff: "length bs - length (concat (map reading_bytes (fst (parse_records bs)))) =
        length ?rest - length ?c"
      using fits by simp
    show ?thesis
    proof (intro conjI impI)
      show "prefix (concat (map reading_bytes (fst (parse_records bs)))) bs"
        by (rule pre)
    next
      assume "\<not> snd (parse_records bs)"
      then have "\<not> snd (parse_records ?rest)"
        by (simp add: step)
      with IH diff show "length bs - length (concat (map reading_bytes (fst (parse_records bs)))) < 2"
        by simp
    qed
  next
    case False
    then show ?thesis
      using parse_records_stop [OF False] by auto
  qed
qed

lemma parse_records_count: "length (fst (parse_records bs)) \<le> length bs div 2"
proof (induction bs rule: parse_records.induct)
  case (1 bs)
  show ?case
  proof (cases "2 \<le> length bs \<and> (\<exists>k. sensor_of (hd bs) = Some k \<and> Suc (value_width k) \<le> length bs)")
    case True
    then obtain k where len: "2 \<le> length bs" and k: "sensor_of (hd bs) = Some k"
      and fits: "Suc (value_width k) \<le> length bs"
      by blast
    have "Suc (Suc 0) \<le> Suc (value_width k)"
      using value_width_pos [of k] by simp
    with "1.IH" [OF _ k] len fits show ?thesis
      by (auto simp: parse_records_record [OF len k fits] not_less)
  next
    case False
    then show ?thesis
      using parse_records_stop [OF False] by simp
  qed
qed

subsection \<open>The decoder's start state\<close>

text \<open>\<^verbatim>\<open>data_type = *(++pdat); l = len - 1;\<close>: the window of the first iteration is
  the payload from byte 1 (the first tag) to the declared length.\<close>

lemma decode_records_start:
  fixes g :: "'a ulp_globals_scheme"
  assumes "unat len \<le> length p" and "2 < unat len"
  defines "s0 \<equiv> \<lparr>pbuf = pbuf g, json_str = json_str g, pdat = 1, lrem = len - 1,
                 data_type = p ! 1, error = False\<rparr>"
  shows "decode_records env p len g = record_loop env p s0" and "rx_inv p s0"
    and "rx_window p s0 = take (unat len - 1) (drop 1 p)" and "json_str s0 = json_str g"
proof -
  have l: "unat (len - 1) = unat len - 1"
    using unat_sub_le_word [of 1 len] assms(2) by simp
  show "decode_records env p len g = record_loop env p s0"
    by (simp add: decode_records_def s0_def)
  show "rx_inv p s0"
    using assms(1,2) l by (simp add: rx_inv_def s0_def)
  show "rx_window p s0 = take (unat len - 1) (drop 1 p)"
    using l by (simp add: rx_window_def s0_def)
  show "json_str s0 = json_str g"
    by (simp add: s0_def)
qed

lemma decode_records_parse:
  assumes "unat len \<le> length p" and "2 < unat len"
  shows "json_str (decode_records env p len g) =
           foldl add_json_data (json_str g)
             (map (render_reading env) (fst (parse_records (take (unat len - 1) (drop 1 p))))) \<and>
         error (decode_records env p len g) = snd (parse_records (take (unat len - 1) (drop 1 p)))"
  using record_loop_refines [OF decode_records_start(2) [OF assms, where g = g], where env = env]
    decode_records_start(1) [OF assms, where g = g and env = env]
    decode_records_start(3,4) [OF assms, where g = g]
  by simp

subsection \<open>Properties of the record decoder\<close>

text \<open>C1: refinement. On a data frame (more than two bytes, all of them present), the
  pointer-and-counter loop of \<^verbatim>\<open>decode_received_data\<close> appends to \<^verbatim>\<open>json_str\<close>
  exactly the fragments of the readings the list parser \<open>parse_records\<close> finds in the
  payload from byte 1 to the declared length, in stream order, and ends in error exactly
  when the parser aborts.\<close>

theorem decode_records_refines:
  assumes "unat len \<le> length p" and "2 < unat len"
  shows "json_str (decode_records env p len g) =
           foldl add_json_data (json_str g)
             (map (render_reading env) (fst (parse_records (take (unat len - 1) (drop 1 p))))) \<and>
         error (decode_records env p len g) = snd (parse_records (take (unat len - 1) (drop 1 p)))"
  using record_loop_refines [OF decode_records_start(2) [OF assms, where g = g], where env = env]
    decode_records_start(1) [OF assms, where g = g and env = env]
    decode_records_start(3,4) [OF assms, where g = g]
  by simp

theorem decode_records_refines_witness:
  "unat (4 :: byte) \<le> length [0x11 :: byte, 0x08, 0x02, 0x08] \<and> 2 < unat (4 :: byte) \<and>
   json_str (decode_records \<lparr>platform = AVR, stray_s = []\<rparr> [0x11, 0x08, 0x02, 0x08] 4
               \<lparr>pbuf = [], json_str = ''{''\<rparr>) =
     foldl add_json_data ''{''
       (map (render_reading \<lparr>platform = AVR, stray_s = []\<rparr>)
          (fst (parse_records (take (unat (4 :: byte) - 1) (drop 1 [0x11 :: byte, 0x08, 0x02, 0x08]))))) \<and>
   error (decode_records \<lparr>platform = AVR, stray_s = []\<rparr> [0x11, 0x08, 0x02, 0x08] 4
            \<lparr>pbuf = [], json_str = ''{''\<rparr>) =
     snd (parse_records (take (unat (4 :: byte) - 1) (drop 1 [0x11 :: byte, 0x08, 0x02, 0x08])))"
  using decode_records_refines [of 4 "[0x11, 0x08, 0x02, 0x08]" "\<lparr>platform = AVR, stray_s = []\<rparr>"
      "\<lparr>pbuf = [], json_str = ''{''\<rparr>"]
  by simp

lemma length_str_idx: "length (str_idx t) \<le> 1"
  by (simp add: str_idx_eq_index_suffix index_suffix_def)

text \<open>C29: the index suffix of a key is empty for sensor index 0 and the index's decimal
  digit for indices 1 to 3, so that several sensors of one kind get distinct keys.\<close>

theorem str_idx_suffix:
  "str_idx t = (if t AND 3 = 0 then [] else [digit_char (unat (t AND 3))]) \<and> unat (t AND 3) < 4"
proof -
  have "unat (t AND 3) \<le> unat (3 :: byte)"
    by (rule word_and_le1 [THEN word_le_nat_alt [THEN iffD1]])
  then show ?thesis
    by (simp add: str_idx_eq_index_suffix index_suffix_def)
qed

text \<open>The kind tests of the guard chain are mutually exclusive: at most one of
  \<^verbatim>\<open>isDataTemp\<close> \<dots> \<^verbatim>\<open>isDataLowBat\<close> holds of a tag byte, so the chain's order
  never decides which formatter a record gets.\<close>

lemma kind_tests_exclusive:
  "length (filter (\<lambda>P. P t) [isDataTemp, isDataHum, isDataLux, isDataCO2, isDataVolt, isDataBat,
                             isDataRSSI, isDataCounter, isDataLowBat]) \<le> 1"
  by (simp add: kind_defs)

lemma formatters_fit_pbuf:
  assumes "stray_s env = []"
  shows "length (decode_temp w (str_idx t)) < 24 \<and> length (decode_hum env w (str_idx t)) < 24 \<and>
    length (decode_lux w (str_idx t)) < 24 \<and> length (decode_co2 env w (str_idx t)) < 24 \<and>
    length (decode_volt env w (str_idx t)) < 24 \<and> length (decode_bat w (str_idx t)) < 24 \<and>
    length (decode_rssi b (str_idx t)) < 24 \<and> length (decode_counter c (str_idx t)) < 24 \<and>
    length (decode_lowbat b (str_idx t)) < 24"
proof -
  note len = formatter_lengths [OF length_str_idx [of t]]
  have "length (decode_temp w (str_idx t)) \<le> 15" "length (decode_hum env w (str_idx t)) \<le> 20"
    "length (decode_lux w (str_idx t)) \<le> 14" "length (decode_co2 env w (str_idx t)) \<le> 13"
    "length (decode_volt env w (str_idx t)) \<le> 15 + length (stray_s env)"
    "length (decode_bat w (str_idx t)) \<le> 14" "length (decode_rssi b (str_idx t)) \<le> 12"
    "length (decode_counter c (str_idx t)) \<le> 20" "length (decode_lowbat b (str_idx t)) \<le> 11"
    by (rule len)+
  with assms show ?thesis
    by (intro conjI; simp)
qed

lemma length_render_reading:
  assumes "stray_s env = []"
  shows "length (render_reading env r) \<le> 23"
proof -
  have "length (render env k (str_idx t) v) < 24" for k t v
    using formatters_fit_pbuf [OF assms, of _ t] by (cases k) simp_all
  from this [of "r_kind r" "r_tag r" "r_val r"] show ?thesis
    by (simp add: render_reading_def str_idx_eq_index_suffix)
qed

lemma select_record_fits_pbuf:
  assumes "select_record env p pd l t (str_idx t) = Some (sz, frag)" and "stray_s env = []"
  shows "length frag < 24"
  using assms formatters_fit_pbuf [OF assms(2)]
  by (auto simp: select_record_def split: if_splits)

lemma record_step_pbuf:
  "stray_s env = [] \<Longrightarrow> length (pbuf s) < 24 \<Longrightarrow> length (pbuf (record_step env p s)) < 24"
  by (auto simp: record_step_def Let_def dest: select_record_fits_pbuf split: option.splits)

text \<open>C27: every fragment the record decoder writes into the 24-byte scratch buffer
  \<^verbatim>\<open>pbuf\<close> fits it with its NUL, as long as \<^verbatim>\<open>decode_volt\<close>'s stray \<^verbatim>\<open>%s\<close>
  prints nothing: from a state whose \<open>pbuf\<close> fits, every state after any number of
  loop bodies still has a \<open>pbuf\<close> that fits.\<close>

theorem record_steps_fit_pbuf:
  assumes "stray_s env = []" and "length (pbuf s) < 24"
  shows "length (pbuf ((record_step env p ^^ k) s)) < 24"
  by (induction k) (simp_all add: assms record_step_pbuf)

theorem record_steps_fit_pbuf_witness:
  "stray_s \<lparr>platform = AVR, stray_s = []\<rparr> = [] \<and>
   length (pbuf \<lparr>pbuf = [], json_str = ''{'', pdat = 1, lrem = 6, data_type = 0x08, error = False\<rparr>) < 24 \<and>
   length (pbuf ((record_step \<lparr>platform = AVR, stray_s = []\<rparr> [0x11, 0x08, 0x02, 0x08, 0x09, 0x10, 0x00] ^^ 2)
     \<lparr>pbuf = [], json_str = ''{'', pdat = 1, lrem = 6, data_type = 0x08, error = False\<rparr>)) < 24"
  using record_steps_fit_pbuf [where env = "\<lparr>platform = AVR, stray_s = []\<rparr>"
      and s = "\<lparr>pbuf = [], json_str = ''{'', pdat = 1, lrem = 6, data_type = 0x08, error = False\<rparr>"
      and p = "[0x11, 0x08, 0x02, 0x08, 0x09, 0x10, 0x00]" and k = 2]
  by simp

lemma parse_records_second_unknown:
  assumes "sensor_of ta = Some k" and "length va = value_width k" and "sensor_of tb = None"
    and "rest \<noteq> []"
  shows "parse_records (ta # va @ tb # rest) = ([Reading k ta va], True)"
proof -
  let ?bs = "ta # va @ tb # rest"
  have len: "2 \<le> length ?bs" and fits: "Suc (value_width k) \<le> length ?bs"
    using assms(2) by simp_all
  have "drop (Suc (value_width k)) ?bs = tb # rest"
    using assms(2) by simp
  moreover have "parse_records (tb # rest) = ([], True)"
    using assms(3,4) by (intro parse_records_unknown) (auto simp: neq_Nil_conv)
  ultimately show ?thesis
    using parse_records_record [OF len _ fits] assms(1,2) by simp
qed

text \<open>C9: a record with an unknown kind aborts the stream: when the first record of a
  data frame is valid and the tag after it is of no known kind (with more bytes after it),
  the output holds the first record's fragment and nothing after it, and the loop ends
  with its error flag set.\<close>

theorem decode_records_abort_keeps_prefix:
  assumes "unat len \<le> length p" and "2 < unat len"
    and "take (unat len - 1) (drop 1 p) = ta # va @ tb # rest"
    and "sensor_of ta = Some k" and "length va = value_width k" and "sensor_of tb = None"
    and "rest \<noteq> []"
  shows "json_str (decode_records env p len g) =
           add_json_data (json_str g) (render_reading env (Reading k ta va)) \<and>
         error (decode_records env p len g)"
  using decode_records_parse [OF assms(1,2), where env = env and g = g]
    parse_records_second_unknown [OF assms(4-7)] assms(3)
  by simp

theorem decode_records_abort_keeps_prefix_witness:
  "unat (6 :: byte) \<le> length [0x11 :: byte, 0x08, 0x02, 0x08, 0xFF, 0x00] \<and> 2 < unat (6 :: byte) \<and>
   take (unat (6 :: byte) - 1) (drop 1 [0x11 :: byte, 0x08, 0x02, 0x08, 0xFF, 0x00]) =
     0x08 # [0x02, 0x08] @ 0xFF # [0x00] \<and>
   sensor_of 0x08 = Some Temp \<and> length [0x02 :: byte, 0x08] = value_width Temp \<and>
   sensor_of 0xFF = None \<and> [0x00 :: byte] \<noteq> [] \<and>
   json_str (decode_records \<lparr>platform = AVR, stray_s = []\<rparr> [0x11, 0x08, 0x02, 0x08, 0xFF, 0x00] 6
               \<lparr>pbuf = [], json_str = ''{''\<rparr>) =
     add_json_data ''{'' (render_reading \<lparr>platform = AVR, stray_s = []\<rparr> (Reading Temp 0x08 [0x02, 0x08])) \<and>
   error (decode_records \<lparr>platform = AVR, stray_s = []\<rparr> [0x11, 0x08, 0x02, 0x08, 0xFF, 0x00] 6
            \<lparr>pbuf = [], json_str = ''{''\<rparr>)"
proof -
  have s8: "sensor_of 0x08 = Some Temp" and sff: "sensor_of 0xFF = None"
    by (simp_all add: sensor_of_def kind_defs)
  show ?thesis
    using decode_records_abort_keeps_prefix [where len = 6 and p = "[0x11, 0x08, 0x02, 0x08, 0xFF, 0x00]"
        and ta = "0x08" and va = "[0x02, 0x08]" and tb = "0xFF" and rest = "[0x00]" and k = Temp
        and env = "\<lparr>platform = AVR, stray_s = []\<rparr>" and g = "\<lparr>pbuf = [], json_str = ''{''\<rparr>"] s8 sff
    by simp
qed

text \<open>C26: the decoder never reinterprets bytes: the fragments it appends are those of a
  list of well-formed records (a tag of a known kind and exactly that kind's value bytes)
  whose bytes, laid end to end, are a prefix of the payload from byte 1; when the loop
  ends without error, fewer than two bytes of the declared length are left over.\<close>

theorem decode_records_tiles_payload:
  assumes "unat len \<le> length p" and "2 < unat len"
  shows "\<exists>rs. json_str (decode_records env p len g) =
               foldl add_json_data (json_str g) (map (render_reading env) rs) \<and>
             (\<forall>r \<in> set rs. wf_reading r) \<and>
             prefix (concat (map reading_bytes rs)) (take (unat len - 1) (drop 1 p)) \<and>
             (\<not> error (decode_records env p len g) \<longrightarrow>
                length (take (unat len - 1) (drop 1 p)) - length (concat (map reading_bytes rs)) < 2)"
  using decode_records_parse [OF assms, where env = env and g = g]
    parse_records_wf parse_records_tiles [of "take (unat len - 1) (drop 1 p)"]
  by blast

theorem decode_records_tiles_payload_witness:
  "unat (4 :: byte) \<le> length [0x11 :: byte, 0x08, 0x02, 0x08] \<and> 2 < unat (4 :: byte) \<and>
   (\<exists>rs. json_str (decode_records \<lparr>platform = AVR, stray_s = []\<rparr> [0x11, 0x08, 0x02, 0x08] 4
               \<lparr>pbuf = [], json_str = ''{''\<rparr>) =
             foldl add_json_data ''{'' (map (render_reading \<lparr>platform = AVR, stray_s = []\<rparr>) rs) \<and>
         (\<forall>r \<in> set rs. wf_reading r) \<and>
         prefix (concat (map reading_bytes rs)) (take (unat (4 :: byte) - 1) (drop 1 [0x11 :: byte, 0x08, 0x02, 0x08])) \<and>
         (\<not> error (decode_records \<lparr>platform = AVR, stray_s = []\<rparr> [0x11, 0x08, 0x02, 0x08] 4
                \<lparr>pbuf = [], json_str = ''{''\<rparr>) \<longrightarrow>
            length (take (unat (4 :: byte) - 1) (drop 1 [0x11 :: byte, 0x08, 0x02, 0x08])) -
              length (concat (map reading_bytes rs)) < 2))"
  using decode_records_tiles_payload [of 4 "[0x11, 0x08, 0x02, 0x08]" "\<lparr>platform = AVR, stray_s = []\<rparr>"
      "\<lparr>pbuf = [], json_str = ''{''\<rparr>"]
  by simp

subsection \<open>The loop invariant and the number of iterations\<close>

lemma record_step_lrem:
  "error (record_step env p s) \<Longrightarrow> record_step env p s = s\<lparr>error := True\<rparr>"
  "\<not> error (record_step env p s) \<Longrightarrow> unat (lrem (record_step env p s)) + 2 \<le> unat (lrem s)"
  by (auto simp: record_step_def Let_def unat_sub_le_word dest!: select_record_size
           split: option.splits if_splits)

text \<open>C10: the loop invariant. Whenever the loop goes round again (more than one byte
  left and no error), the state after the step still has its cursor on a tag, at least two
  bytes left, and cursor plus count inside the payload: no read of the next iteration is
  out of bounds.\<close>

theorem record_step_keeps_inv:
  assumes inv: "rx_inv p s" and more: "1 < lrem (record_step env p s)"
    and ok: "\<not> error (record_step env p s)"
  shows "rx_inv p (record_step env p s)"
proof (cases "sensor_of (data_type s) = None \<or>
    (\<exists>k. sensor_of (data_type s) = Some k \<and> unat (lrem s) < Suc (value_width k))")
  case True
  with ok show ?thesis
    using record_step_abort [OF inv True] by simp
next
  case False
  then obtain k where k: "sensor_of (data_type s) = Some k"
    and fits: "Suc (value_width k) \<le> unat (lrem s)"
    by (auto simp: not_less)
  define w where "w = Suc (value_width k)"
  have l': "unat (lrem s - word_of_nat w) = unat (lrem s) - w"
    using fits unfolding w_def by (rule unat_sub_le_word)
  have "lrem (record_step env p s) = lrem s - word_of_nat w"
    by (simp add: record_step_record [OF inv k fits] Let_def w_def)
  with more l' have two: "2 \<le> unat (lrem s) - w"
    by (simp add: word_less_nat_alt)
  then have "record_step env p s =
      s\<lparr>pbuf := render_reading env (Reading k (data_type s) (take (value_width k) (tl (rx_window p s)))),
        json_str := add_json_data (json_str s)
          (render_reading env (Reading k (data_type s) (take (value_width k) (tl (rx_window p s))))),
        lrem := lrem s - word_of_nat w, error := False,
        pdat := pdat s + w, data_type := p ! (pdat s + w)\<rparr>"
    using l' by (simp add: record_step_record [OF inv k fits] w_def word_le_nat_alt Let_def)
  with inv two l' show ?thesis
    by (simp add: rx_inv_def)
qed

theorem record_step_keeps_inv_witness:
  "rx_inv [0x11, 0x08, 0x02, 0x08, 0x09, 0x10, 0x00]
     \<lparr>pbuf = [], json_str = ''{'', pdat = 1, lrem = 6, data_type = 0x08, error = False\<rparr> \<and>
   1 < lrem (record_step \<lparr>platform = AVR, stray_s = []\<rparr> [0x11, 0x08, 0x02, 0x08, 0x09, 0x10, 0x00]
     \<lparr>pbuf = [], json_str = ''{'', pdat = 1, lrem = 6, data_type = 0x08, error = False\<rparr>) \<and>
   \<not> error (record_step \<lparr>platform = AVR, stray_s = []\<rparr> [0x11, 0x08, 0x02, 0x08, 0x09, 0x10, 0x00]
     \<lparr>pbuf = [], json_str = ''{'', pdat = 1, lrem = 6, data_type = 0x08, error = False\<rparr>) \<and>
   rx_inv [0x11, 0x08, 0x02, 0x08, 0x09, 0x10, 0x00]
     (record_step \<lparr>platform = AVR, stray_s = []\<rparr> [0x11, 0x08, 0x02, 0x08, 0x09, 0x10, 0x00]
       \<lparr>pbuf = [], json_str = ''{'', pdat = 1, lrem = 6, data_type = 0x08, error = False\<rparr>)"
proof -
  have pre: "rx_inv [0x11, 0x08, 0x02, 0x08, 0x09, 0x10, 0x00]
      \<lparr>pbuf = [], json_str = ''{'', pdat = 1, lrem = 6, data_type = 0x08, error = False\<rparr> \<and>
    1 < lrem (record_step \<lparr>platform = AVR, stray_s = []\<rparr> [0x11, 0x08, 0x02, 0x08, 0x09, 0x10, 0x00]
      \<lparr>pbuf = [], json_str = ''{'', pdat = 1, lrem = 6, data_type = 0x08, error = False\<rparr>) \<and>
    \<not> error (record_step \<lparr>platform = AVR, stray_s = []\<rparr> [0x11, 0x08, 0x02, 0x08, 0x09, 0x10, 0x00]
      \<lparr>pbuf = [], json_str = ''{'', pdat = 1, lrem = 6, data_type = 0x08, error = False\<rparr>)"
    by code_simp
  then show ?thesis
    using record_step_keeps_inv [of "[0x11, 0x08, 0x02, 0x08, 0x09, 0x10, 0x00]"
        "\<lparr>pbuf = [], json_str = ''{'', pdat = 1, lrem = 6, data_type = 0x08, error = False\<rparr>"
        "\<lparr>platform = AVR, stray_s = []\<rparr>"]
    by blast
qed

text \<open>C11: termination with a bound. Started with at least two bytes left, the
  \<^verbatim>\<open>do { ... } while (l > 1 && !error)\<close> loop ends after at least one and at most
  \<open>l div 2\<close> executions of its body: each body that does not fail consumes a tag
  and at least one value byte.\<close>

theorem record_loop_iterations:
  "2 \<le> unat (lrem s) \<Longrightarrow>
   \<exists>k. 0 < k \<and> k \<le> unat (lrem s) div 2 \<and> record_loop env p s = (record_step env p ^^ k) s"
proof (induction env p s rule: record_loop.induct)
  case (1 env p s)
  show ?case
  proof (cases "1 < lrem (record_step env p s) \<and> \<not> error (record_step env p s)")
    case True
    then have two: "2 \<le> unat (lrem (record_step env p s))"
      by (simp add: word_less_nat_alt)
    obtain k where k: "0 < k" "k \<le> unat (lrem (record_step env p s)) div 2"
      and run: "record_loop env p (record_step env p s) = (record_step env p ^^ k) (record_step env p s)"
      using "1.IH" [OF refl True two] by blast
    have "Suc k \<le> unat (lrem s) div 2"
      using k(2) record_step_lrem(2) [of env p s] True by linarith
    moreover have "record_loop env p s = (record_step env p ^^ Suc k) s"
      using True run by (simp add: record_loop_go funpow_Suc_right del: funpow.simps)
    ultimately show ?thesis
      by blast
  next
    case False
    then have "record_loop env p s = (record_step env p ^^ 1) s"
      by (simp add: record_loop_stop)
    with "1.prems" show ?thesis
      by fastforce
  qed
qed

theorem record_loop_iterations_witness:
  "2 \<le> unat (lrem \<lparr>pbuf = [], json_str = ''{'', pdat = 1, lrem = 6, data_type = 0x08, error = False\<rparr>) \<and>
   (\<exists>k. 0 < k \<and>
     k \<le> unat (lrem \<lparr>pbuf = [], json_str = ''{'', pdat = 1, lrem = 6, data_type = 0x08, error = False\<rparr>) div 2 \<and>
     record_loop \<lparr>platform = AVR, stray_s = []\<rparr> [0x11, 0x08, 0x02, 0x08, 0x09, 0x10, 0x00]
       \<lparr>pbuf = [], json_str = ''{'', pdat = 1, lrem = 6, data_type = 0x08, error = False\<rparr> =
     (record_step \<lparr>platform = AVR, stray_s = []\<rparr> [0x11, 0x08, 0x02, 0x08, 0x09, 0x10, 0x00] ^^ k)
       \<lparr>pbuf = [], json_str = ''{'', pdat = 1, lrem = 6, data_type = 0x08, error = False\<rparr>)"
  using record_loop_iterations [of "\<lparr>pbuf = [], json_str = ''{'', pdat = 1, lrem = 6, data_type = 0x08, error = False\<rparr>"
      "\<lparr>platform = AVR, stray_s = []\<rparr>" "[0x11, 0x08, 0x02, 0x08, 0x09, 0x10, 0x00]"]
  by simp

subsection \<open>The buffer during the loop\<close>

lemma record_step_json_le:
  "length (json_str s) \<le> 129 \<Longrightarrow> length (json_str (record_step env p s)) \<le> 129"
  by (auto simp: record_step_def Let_def length_add_json_data_le split: option.splits)

lemma record_loop_preserves:
  "(\<And>s. P s \<Longrightarrow> P (record_step env p s)) \<Longrightarrow> P s \<Longrightarrow> P (record_loop env p s)"
proof (induction env p s rule: record_loop.induct)
  case (1 env p s)
  have step: "P (record_step env p s)"
    using "1.prems" by blast
  show ?case
  proof (cases "1 < lrem (record_step env p s) \<and> \<not> error (record_step env p s)")
    case True
    with "1.IH" [OF refl True "1.prems"(1) step] show ?thesis
      by (simp add: record_loop_go)
  next
    case False
    with step show ?thesis
      by (simp add: record_loop_stop)
  qed
qed

lemma record_loop_json_le:
  "length (json_str s) \<le> 129 \<Longrightarrow> length (json_str (record_loop env p s)) \<le> 129"
  by (rule record_loop_preserves [where P = "\<lambda>t. length (json_str t) \<le> 129"])
     (simp_all add: record_step_json_le)

lemma record_step_json_prefix:
  "length (json_str s) \<le> 129 \<Longrightarrow> prefix (json_str s) (json_str (record_step env p s))"
  by (auto simp: record_step_def Let_def add_json_data_prefix split: option.splits)

lemma record_loop_json_prefix:
  assumes "length (json_str s) \<le> 129"
  shows "prefix (json_str s) (json_str (record_loop env p s))"
proof -
  let ?P = "\<lambda>t. length (json_str t) \<le> 129 \<and> prefix (json_str s) (json_str t)"
  have "?P t \<Longrightarrow> ?P (record_step env p t)" for t
    using record_step_json_le [of t env p] record_step_json_prefix [of t env p]
    by (auto intro: prefix_order.trans)
  with assms have "?P (record_loop env p s)"
    by (intro record_loop_preserves [where P = ?P]) simp_all
  then show ?thesis
    by simp
qed

subsection \<open>Well-formed streams are decoded completely\<close>

lemma parse_records_concat:
  assumes "\<forall>r \<in> set rs. wf_reading r" and "length rest < 2"
  shows "parse_records (concat (map reading_bytes rs) @ rest) = (rs, False)"
  using assms(1)
proof (induction rs)
  case Nil
  then show ?case
    using assms(2) by (simp add: parse_records_short)
next
  case (Cons r rs)
  obtain k t v where r: "r = Reading k t v"
    by (cases r)
  with Cons.prems have k: "sensor_of t = Some k" and v: "length v = value_width k"
    by (simp_all add: wf_reading_def)
  let ?bs = "t # v @ concat (map reading_bytes rs) @ rest"
  have "2 \<le> length ?bs" and "Suc (value_width k) \<le> length ?bs"
    using v value_width_pos [of k] by simp_all
  moreover have "drop (Suc (value_width k)) ?bs = concat (map reading_bytes rs) @ rest"
    using v by simp
  moreover have "take (value_width k) (tl ?bs) = v"
    using v by simp
  ultimately show ?case
    using Cons parse_records_record [of ?bs k] k r by simp
qed

text \<open>C12: completeness. When the record bytes of a data frame are well-formed records
  laid end to end, followed by at most one spare byte, the loop appends every record's
  fragment in order and ends without error.\<close>

theorem decode_records_complete:
  assumes "unat len \<le> length p" and "2 < unat len" and "\<forall>r \<in> set rs. wf_reading r"
    and "take (unat len - 1) (drop 1 p) = concat (map reading_bytes rs) @ rest" and "length rest < 2"
  shows "json_str (decode_records env p len g) =
           foldl add_json_data (json_str g) (map (render_reading env) rs) \<and>
         \<not> error (decode_records env p len g)"
  using decode_records_parse [OF assms(1,2), where env = env and g = g]
    parse_records_concat [OF assms(3,5)] assms(4)
  by simp

theorem decode_records_complete_witness:
  "unat (7 :: byte) \<le> length [0x11 :: byte, 0x08, 0x02, 0x08, 0x09, 0x85, 0x08] \<and> 2 < unat (7 :: byte) \<and>
   wf_reading (Reading Temp 0x08 [0x02, 0x08]) \<and> wf_reading (Reading Temp 0x09 [0x85, 0x08]) \<and>
   take (unat (7 :: byte) - 1) (drop 1 [0x11 :: byte, 0x08, 0x02, 0x08, 0x09, 0x85, 0x08]) =
     concat (map reading_bytes [Reading Temp 0x08 [0x02, 0x08], Reading Temp 0x09 [0x85, 0x08]]) @ [] \<and>
   length ([] :: byte list) < 2 \<and>
   json_str (decode_records \<lparr>platform = AVR, stray_s = []\<rparr> [0x11, 0x08, 0x02, 0x08, 0x09, 0x85, 0x08] 7
               \<lparr>pbuf = [], json_str = ''{''\<rparr>) =
     foldl add_json_data ''{'' (map (render_reading \<lparr>platform = AVR, stray_s = []\<rparr>)
       [Reading Temp 0x08 [0x02, 0x08], Reading Temp 0x09 [0x85, 0x08]]) \<and>
   \<not> error (decode_records \<lparr>platform = AVR, stray_s = []\<rparr> [0x11, 0x08, 0x02, 0x08, 0x09, 0x85, 0x08] 7
               \<lparr>pbuf = [], json_str = ''{''\<rparr>)"
proof -
  have "sensor_of 0x08 = Some Temp" and "sensor_of 0x09 = Some Temp"
    by (simp_all add: sensor_of_def kind_defs)
  then have w1: "wf_reading (Reading Temp 0x08 [0x02, 0x08])" and w2: "wf_reading (Reading Temp 0x09 [0x85, 0x08])"
    by (simp_all add: wf_reading_def)
  then have wf: "\<forall>r \<in> set [Reading Temp 0x08 [0x02, 0x08], Reading Temp 0x09 [0x85, 0x08]]. wf_reading r"
    by simp
  show ?thesis
    using decode_records_complete [where len = 7 and p = "[0x11, 0x08, 0x02, 0x08, 0x09, 0x85, 0x08]"
        and rs = "[Reading Temp 0x08 [0x02, 0x08], Reading Temp 0x09 [0x85, 0x08]]" and rest = "[]"
        and env = "\<lparr>platform = AVR, stray_s = []\<rparr>" and g = "\<lparr>pbuf = [], json_str = ''{''\<rparr>"] wf w1 w2
    by simp
qed

lemma record_loop_pbuf:
  "stray_s env = [] \<Longrightarrow> length (pbuf s) < 24 \<Longrightarrow> length (pbuf (record_loop env p s)) < 24"
  by (rule record_loop_preserves [where P = "\<lambda>t. length (pbuf t) < 24"]) (simp_all add: record_step_pbuf)

end
