(* ===== verification/Frame_Type.thy ===== *)
theory Frame_Type
  imports Protocol C_Format
begin

text \<open>
  The frame-type resolver: the name table \<^verbatim>\<open>rf_frame\<close> and \<^verbatim>\<open>decode_frame_type\<close>,
  which clamps a code outside the table to 0 (\<^verbatim>\<open>UNKNOWN\<close>) before indexing it.
  The C function copies the name into the shared scratch buffer \<^verbatim>\<open>pbuf\<close> and returns
  it; here it returns the name, and the caller stores it into \<open>pbuf\<close>. The lemmas show
  that the lookup stays inside the table and which codes share a name.
\<close>

text \<open>The free slots of the table hold their own code as one hexadecimal digit.\<close>

definition rf_frame :: "string list" where
  "rf_frame =
    [''UNKNOWN'', ''ALIVE'', ''PING'', ''PINGBACK'',
     ''OTA_CONFIG'', ''OTA_UPDATE'', ''OTA_AUTOID'', ''SYS_END'']
    @ map (\<lambda>d. [hex_char d]) [8..<16]
    @ [''DAT_START'', ''DATA'', ''DAT_END'']
    @ map (\<lambda>d. [hex_char d]) [3..<16]"

definition decode_frame_type :: "byte \<Rightarrow> string" where
  "decode_frame_type type =
     (let type = (if \<not> isPayloadValid type then 0 else type) in rf_frame ! unat type)"

lemma length_rf_frame [simp]: "length rf_frame = 32"
  by (simp add: rf_frame_def)

lemma decode_frame_type_index:
  "decode_frame_type t = rf_frame ! (if unat t < 32 then unat t else 0)"
proof -
  have "isPayloadValid t \<longleftrightarrow> unat t < 32"
    by (auto simp: isPayloadValid_def word_le_nat_alt)
  then show ?thesis
    by (simp add: decode_frame_type_def Let_def)
qed

lemma rf_frame_repeats:
  "i < 32 \<Longrightarrow> rf_frame ! i = rf_frame ! (if 8 \<le> i mod 16 then i mod 16 else i)"
proof -
  have "list_all (\<lambda>i. rf_frame ! i = rf_frame ! (if 8 \<le> i mod 16 then i mod 16 else i)) [0..<32]"
    by code_simp
  then show "i < 32 \<Longrightarrow> ?thesis"
    by (simp add: list_all_iff)
qed

lemma distinct_rf_frame_24: "distinct (take 24 rf_frame)"
  by code_simp

lemma rf_frame_nth_eq:
  assumes "i < 32" and "j < 32"
  shows "rf_frame ! i = rf_frame ! j \<longleftrightarrow> i = j \<or> 8 \<le> i mod 16 \<and> i mod 16 = j mod 16"
proof -
  let ?k = "\<lambda>i :: nat. if 8 \<le> i mod 16 then i mod 16 else i"
  have k: "?k i < 24" "?k j < 24"
    using assms by presburger+
  have "rf_frame ! i = rf_frame ! j \<longleftrightarrow> take 24 rf_frame ! ?k i = take 24 rf_frame ! ?k j"
    using rf_frame_repeats [OF assms(1)] rf_frame_repeats [OF assms(2)] k by simp
  also have "\<dots> \<longleftrightarrow> ?k i = ?k j"
    using nth_eq_iff_index_eq [OF distinct_rf_frame_24] k by simp
  also have "\<dots> \<longleftrightarrow> i = j \<or> 8 \<le> i mod 16 \<and> i mod 16 = j mod 16"
    using assms by auto
  finally show ?thesis .
qed

lemma decode_frame_type_clamped:
  "decode_frame_type t = rf_frame ! unat (if isPayloadValid t then t else 0)"
  "unat (if isPayloadValid t then t else 0) < 32"
  by (auto simp: decode_frame_type_def isPayloadValid_def word_le_nat_alt)

text \<open>C3: the resolver never indexes past the end of \<^verbatim>\<open>rf_frame\<close>: for every
  byte it returns one of the table's names.\<close>

theorem decode_frame_type_in_table: "decode_frame_type t \<in> set rf_frame"
  by (simp add: decode_frame_type_index)

text \<open>C4: which codes share a name. Two codes print the same frame name exactly when
  their clamped table indices are equal, or are a free slot \<open>k\<close> of the command half and
  the free slot \<open>k + 16\<close> of the data half (\<open>8 \<le> k < 16\<close>): the data half repeats the
  names \<open>"8"\<close> to \<open>"F"\<close> of the command half, and every code outside the table prints
  \<^verbatim>\<open>UNKNOWN\<close> like code 0.\<close>

theorem decode_frame_type_same_name:
  "decode_frame_type c = decode_frame_type d \<longleftrightarrow>
   (let i = unat (if isPayloadValid c then c else 0); j = unat (if isPayloadValid d then d else 0)
    in i = j \<or> 8 \<le> i mod 16 \<and> i mod 16 = j mod 16)"
  unfolding decode_frame_type_clamped(1) Let_def
  by (rule rf_frame_nth_eq [OF decode_frame_type_clamped(2) decode_frame_type_clamped(2)])

theorem decode_frame_type_same_name_witness:
  "decode_frame_type 0x09 = decode_frame_type 0x19 \<and> decode_frame_type 0x40 = decode_frame_type 0 \<and>
   decode_frame_type 0x01 \<noteq> decode_frame_type 0x11"
  by (simp add: decode_frame_type_same_name isPayloadValid_def)

end
