(* ===== verification/Dispatcher.thy ===== *)
theory Dispatcher
  imports Record_Decoder Frame_Type
begin

text \<open>
  The payload dispatcher \<^verbatim>\<open>decode_received_data\<close> (lines 244--447 of
  \<^verbatim>\<open>src/ULPNode_RF_Protocol.cpp\<close>): it stores the frame's name into \<open>pbuf\<close>
  (\<^verbatim>\<open>decode_frame_type\<close>), opens \<^verbatim>\<open>json_str\<close> with the node id and RSSI, then takes
  one of four paths, alive, ping/ping-back, data records and raw dump, closes the buffer
  and returns the command code, reset to 0 on the raw path only. The state is the record
  \<open>ulp_globals\<close> of the two global buffers; the function returns the updated buffers and
  the code. The payload is the byte list \<open>p\<close>; a read at an index is \<open>p ! i\<close>, so that
  reading past the end of the list is, as in C, a value the model does not know.
\<close>

unbundle bit_operations_syntax

subsection \<open>The dispatcher\<close>

text \<open>\<^verbatim>\<open>sprintf_P(pbuf, ...); add_json_data(json_str, pbuf)\<close>, and equally
  \<^verbatim>\<open>add_json_data(json_str, decode_bat(...))\<close>, since \<^verbatim>\<open>decode_bat\<close> prints into
  \<open>pbuf\<close> and returns it: the fragment becomes \<open>pbuf\<close> and is offered to the buffer.\<close>

definition emit :: "'a ulp_globals_scheme \<Rightarrow> string \<Rightarrow> 'a ulp_globals_scheme" where
  "emit g frag = g\<lparr>pbuf := frag, json_str := add_json_data (json_str g) frag\<rparr>"

definition fmt_state :: "u16 \<Rightarrow> string" where
  \<open>fmt_state status = ''"state":'' @ c_fmt_X0 4 (unat status)\<close>

definition fmt_myrssi :: "byte \<Rightarrow> string" where
  \<open>fmt_myrssi rssi = ''"myrssi":'' @ c_fmt_d (sint rssi)\<close>

text \<open>\<^verbatim>\<open>while (len--) sprintf_P(&json_str[strlen(json_str)], "%02X ", *p++)\<close>.\<close>

fun raw_hex :: "byte list \<Rightarrow> string" where
  "raw_hex [] = []"
| "raw_hex (b # bs) = c_fmt_X0 2 (unat b) @ '' '' @ raw_hex bs"

definition decode_received_data ::
  "c_env \<Rightarrow> ulp_globals \<Rightarrow> byte \<Rightarrow> byte \<Rightarrow> byte \<Rightarrow> byte \<Rightarrow> byte list \<Rightarrow> ulp_globals \<times> byte" where
  \<open>decode_received_data env g nodeid rssi len c p =
     (let g1 = g\<lparr>pbuf := decode_frame_type c, json_str := json_open nodeid rssi\<rparr>;
          (g2, c2) =
            (if c = RF_PL_ALIVE \<and> unat len = sizeof_RFAlivePayload then
               (emit (emit g1 (fmt_state (payload_status p))) (decode_bat (payload_vbat p) []), c)
             else if (c = RF_PL_PING \<or> c = RF_PL_PINGBACK) \<and> unat len = sizeof_RFPingPayload then
               (let g2 = emit g1 (fmt_state (payload_status p));
                    g3 = (if c = RF_PL_PING then emit g2 (decode_bat (payload_vbat p) []) else g2);
                    g4 = (if c = RF_PL_PINGBACK then emit g3 (fmt_myrssi rssi) else g3)
                in (g4, c))
             else if isPayloadData c \<and> 2 < unat len then
               (let r = decode_records env p len g1
                in (\<lparr>pbuf = pbuf r, json_str = json_str r\<rparr>, c))
             else
               (g1\<lparr>json_str := json_str g1 @ '', "raw":"'' @ raw_hex (map (nth p) [0..<unat len]) @ ''"''\<rparr>,
                0))
      in (g2\<lparr>json_str := json_close (json_str g2)\<rparr>, c2))\<close>

subsection \<open>The specification's view\<close>

text \<open>The four frame shapes of the dispatcher, in the specification's priority order,
  and the reader of the raw dump: two hexadecimal digits and a separator per byte.\<close>

datatype frame_shape = Alive_Frame | Ping_Frame | Data_Frame | Raw_Frame

definition frame_shape :: "byte \<Rightarrow> byte \<Rightarrow> frame_shape" where
  "frame_shape c len =
     (if c = RF_PL_ALIVE \<and> unat len = 4 then Alive_Frame
      else if c \<in> {RF_PL_PING, RF_PL_PINGBACK} \<and> unat len = 4 then Ping_Frame
      else if 0x10 \<le> c \<and> c < 0x20 \<and> 2 < unat len then Data_Frame
      else Raw_Frame)"

fun parse_raw :: "string \<Rightarrow> byte list" where
  "parse_raw (a # b # _ # rest) = word_of_nat (hex_val [a, b]) # parse_raw rest"
| "parse_raw _ = []"

subsection \<open>The paths\<close>

lemma ulp_globals_overwrite:
  "(g :: ulp_globals)\<lparr>pbuf := a, json_str := b\<rparr> = \<lparr>pbuf = a, json_str = b\<rparr>"
  by (cases g) simp

lemma emit_json [simp]: "json_str (emit g f) = add_json_data (json_str g) f"
  by (simp add: emit_def)

lemma decode_received_data_alive:
  "decode_received_data env g n r 4 RF_PL_ALIVE p =
     (let g1 = g\<lparr>pbuf := decode_frame_type RF_PL_ALIVE, json_str := json_open n r\<rparr>;
          g2 = emit (emit g1 (fmt_state (payload_status p))) (decode_bat (payload_vbat p) [])
      in (g2\<lparr>json_str := json_close (json_str g2)\<rparr>, RF_PL_ALIVE))"
  by (simp add: decode_received_data_def sizeof_defs Let_def)

lemma decode_received_data_ping:
  assumes "c = RF_PL_PING \<or> c = RF_PL_PINGBACK"
  shows "decode_received_data env g n r 4 c p =
     (let g1 = g\<lparr>pbuf := decode_frame_type c, json_str := json_open n r\<rparr>;
          g2 = emit g1 (fmt_state (payload_status p));
          g3 = (if c = RF_PL_PING then emit g2 (decode_bat (payload_vbat p) []) else g2);
          g4 = (if c = RF_PL_PINGBACK then emit g3 (fmt_myrssi r) else g3)
      in (g4\<lparr>json_str := json_close (json_str g4)\<rparr>, c))"
  using assms by (auto simp: decode_received_data_def sizeof_defs code_unat Let_def)

lemma decode_received_data_data:
  assumes "isPayloadData c" and "2 < unat len"
  shows "decode_received_data env g n r len c p =
     (let r = decode_records env p len (g\<lparr>pbuf := decode_frame_type c, json_str := json_open n r\<rparr>)
      in (\<lparr>pbuf = pbuf r, json_str = json_close (json_str r)\<rparr>, c))"
  using assms by (auto simp: decode_received_data_def sizeof_defs code_unat Let_def)

lemma decode_received_data_raw:
  assumes "frame_shape c len = Raw_Frame"
  shows \<open>decode_received_data env g n r len c p =
     (g\<lparr>pbuf := decode_frame_type c,
        json_str := json_close (json_open n r @ '', "raw":"'' @ raw_hex (map (nth p) [0..<unat len]) @ ''"'')\<rparr>,
      0)\<close>
  using assms
  by (auto simp: decode_received_data_def frame_shape_def sizeof_defs code_unat Let_def
      word_le_nat_alt word_less_nat_alt split: if_splits)

lemma frame_shape_raw_iff:
  "frame_shape c len = Raw_Frame \<longleftrightarrow>
     \<not> (c = RF_PL_ALIVE \<and> unat len = 4) \<and> \<not> ((c = RF_PL_PING \<or> c = RF_PL_PINGBACK) \<and> unat len = 4) \<and>
     \<not> (isPayloadData c \<and> 2 < unat len)"
  by (auto simp: frame_shape_def isPayloadData_unat word_le_nat_alt word_less_nat_alt)

lemma frame_shape_cases:
  obtains (alive) "c = RF_PL_ALIVE" "len = 4"
    | (ping) "c = RF_PL_PING \<or> c = RF_PL_PINGBACK" "len = 4"
    | (data) "isPayloadData c" "2 < unat len"
    | (raw) "frame_shape c len = Raw_Frame"
proof -
  have l4: "unat len = 4 \<Longrightarrow> len = 4"
    by (simp add: word_unat_eq_iff)
  consider "c = RF_PL_ALIVE \<and> unat len = 4" | "(c = RF_PL_PING \<or> c = RF_PL_PINGBACK) \<and> unat len = 4"
    | "isPayloadData c \<and> 2 < unat len" | "frame_shape c len = Raw_Frame"
    unfolding frame_shape_raw_iff by blast
  then show thesis
    using alive ping data raw l4 by metis
qed

subsection \<open>Reads and lengths\<close>

lemma raw_bytes_take: "n \<le> length p \<Longrightarrow> map (nth p) [0..<n] = take n p"
  by (rule nth_equalityI) simp_all

lemma payload_local:
  assumes "take 4 p = take 4 q"
  shows "payload_status p = payload_status q" and "payload_vbat p = payload_vbat q"
proof -
  have "rd_u16 p i = rd_u16 q i" if "Suc i < 4" for i
    using rd_u16_local [OF that, of p] rd_u16_local [OF that, of q] assms by simp
  then show "payload_status p = payload_status q" and "payload_vbat p = payload_vbat q"
    by (simp_all add: payload_status_def payload_vbat_def)
qed

lemma abs_uint_byte: "\<bar>uint (w :: byte)\<bar> < 10 ^ 3"
  using uint_lt2p [of w] by simp

lemma length_c_fmt_d_pos: "0 < length (c_fmt_d i)"
  by (simp add: c_fmt_d_def dec_nat_not_Nil)

lemma length_json_open: "17 \<le> length (json_open n r)" "length (json_open n r) \<le> 23"
proof -
  have eq: "length (json_open n r) = 15 + length (c_fmt_d (uint n)) + length (c_fmt_d (sint r))"
    by (simp add: json_open_def)
  have "length (c_fmt_d (uint n)) \<le> 4" and "length (c_fmt_d (sint r)) \<le> 4"
    using length_c_fmt_d_le [OF abs_uint_byte] length_c_fmt_d_le [OF abs_sint_byte] by simp_all
  with eq show "length (json_open n r) \<le> 23"
    by linarith
  show "17 \<le> length (json_open n r)"
    using eq length_c_fmt_d_pos [of "uint n"] length_c_fmt_d_pos [of "sint r"] by linarith
qed

lemma length_fmt_state: "length (fmt_state st) = 12"
  using length_c_fmt_X0 [of "unat st" 4] unat_u16_bound [of st] by (simp add: fmt_state_def)

lemma length_decode_bat_noidx: "length (decode_bat v []) \<le> 14"
  by (rule formatter_lengths(6)) simp

lemma length_fmt_myrssi: "length (fmt_myrssi r) \<le> 13"
  using length_c_fmt_d_le [OF abs_sint_byte, of r] by (simp add: fmt_myrssi_def)

lemma hex_char_0: "hex_char 0 = CHR ''0''"
  by code_simp

lemma c_fmt_X0_byte:
  "n < 256 \<Longrightarrow> c_fmt_X0 2 n = [hex_char (n div 16), hex_char (n mod 16)]"
  by (cases "n < 16")
     (simp_all add: c_fmt_X0_def zero_pad_def hex_nat.simps [of n] hex_nat.simps [of "n div 16"]
       hex_char_0)

subsection \<open>Properties of the dispatcher\<close>

text \<open>C2: end-to-end refinement of the data path. For a data frame whose declared length
  exceeds 2 and whose bytes are all present, the reply is the opening with the fragments
  of the records the specification's parser reads from bytes \<open>1 .. len-1\<close>, offered to
  the buffer in stream order, and closed; the command code is returned unchanged, also
  when the record stream was aborted.\<close>

theorem decode_received_data_data_refines:
  assumes "isPayloadData c" and "2 < unat len" and "unat len \<le> length p"
  shows "json_str (fst (decode_received_data env g n r len c p)) =
           json_close (foldl add_json_data (json_open n r)
             (map (render_reading env) (fst (parse_records (take (unat len - 1) (drop 1 p)))))) \<and>
         snd (decode_received_data env g n r len c p) = c"
  using decode_records_parse [OF assms(3,2),
      where env = env and g = "g\<lparr>pbuf := decode_frame_type c, json_str := json_open n r\<rparr>"]
  by (simp add: decode_received_data_data [OF assms(1,2)] json_close_def Let_def)

theorem decode_received_data_data_refines_witness:
  "isPayloadData 0x11 \<and> 2 < unat (4 :: byte) \<and> unat (4 :: byte) \<le> length [0x11 :: byte, 0x08, 0x02, 0x08] \<and>
   json_str (fst (decode_received_data \<lparr>platform = AVR, stray_s = []\<rparr> \<lparr>pbuf = [], json_str = []\<rparr> 5 0xC4 4 0x11
      [0x11, 0x08, 0x02, 0x08])) =
     json_close (foldl add_json_data (json_open 5 0xC4)
       (map (render_reading \<lparr>platform = AVR, stray_s = []\<rparr>)
         (fst (parse_records (take (unat (4 :: byte) - 1) (drop 1 [0x11 :: byte, 0x08, 0x02, 0x08])))))) \<and>
   snd (decode_received_data \<lparr>platform = AVR, stray_s = []\<rparr> \<lparr>pbuf = [], json_str = []\<rparr> 5 0xC4 4 0x11
      [0x11, 0x08, 0x02, 0x08]) = 0x11"
proof -
  have "isPayloadData (0x11 :: byte)"
    by (simp add: isPayloadData_unat)
  then show ?thesis
    using decode_received_data_data_refines [where c = "0x11" and len = 4 and p = "[0x11, 0x08, 0x02, 0x08]"
        and env = "\<lparr>platform = AVR, stray_s = []\<rparr>" and g = "\<lparr>pbuf = [], json_str = []\<rparr>"
        and n = 5 and r = "0xC4"]
    by simp
qed

text \<open>C5: locality and no leakage. When the payload holds its declared length, the reply
  and the returned code depend only on the first \<open>len\<close> payload bytes and on the frame's
  header fields, not on the bytes after them nor on what the global buffers held before
  the call.\<close>

theorem decode_received_data_local:
  assumes "unat len \<le> length p" and "unat len \<le> length q"
    and "take (unat len) p = take (unat len) q"
  shows "json_str (fst (decode_received_data env g n r len c p)) =
           json_str (fst (decode_received_data env h n r len c q)) \<and>
         snd (decode_received_data env g n r len c p) = snd (decode_received_data env h n r len c q)"
proof (cases c len rule: frame_shape_cases)
  case alive
  with assms(3) have "take 4 p = take 4 q"
    by simp
  note pl = payload_local [OF this]
  with alive show ?thesis
    by (simp add: decode_received_data_alive Let_def)
next
  case ping
  with assms(3) have "take 4 p = take 4 q"
    by simp
  note pl = payload_local [OF this]
  with ping show ?thesis
    by (simp add: decode_received_data_ping Let_def)
next
  case data
  have "take (unat len - 1) (drop 1 p) = take (unat len - 1) (drop 1 q)"
    using arg_cong [OF assms(3), of "drop 1"] by (simp add: drop_take)
  with data show ?thesis
    using decode_records_parse [OF assms(1) data(2),
        where env = env and g = "g\<lparr>pbuf := decode_frame_type c, json_str := json_open n r\<rparr>"]
      decode_records_parse [OF assms(2) data(2),
        where env = env and g = "h\<lparr>pbuf := decode_frame_type c, json_str := json_open n r\<rparr>"]
    by (simp add: decode_received_data_data Let_def)
next
  case raw
  with assms show ?thesis
    by (simp add: decode_received_data_raw raw_bytes_take)
qed

theorem decode_received_data_local_witness:
  "unat (4 :: byte) \<le> length [0x11 :: byte, 0x08, 0x02, 0x08, 0xAA] \<and>
   unat (4 :: byte) \<le> length [0x11 :: byte, 0x08, 0x02, 0x08] \<and>
   take (unat (4 :: byte)) [0x11 :: byte, 0x08, 0x02, 0x08, 0xAA] = take (unat (4 :: byte)) [0x11, 0x08, 0x02, 0x08] \<and>
   json_str (fst (decode_received_data \<lparr>platform = AVR, stray_s = []\<rparr> \<lparr>pbuf = [], json_str = []\<rparr> 5 0xC4 4 0x11
      [0x11, 0x08, 0x02, 0x08, 0xAA])) =
   json_str (fst (decode_received_data \<lparr>platform = AVR, stray_s = []\<rparr> \<lparr>pbuf = ''x'', json_str = ''{x''\<rparr>
      5 0xC4 4 0x11 [0x11, 0x08, 0x02, 0x08])) \<and>
   snd (decode_received_data \<lparr>platform = AVR, stray_s = []\<rparr> \<lparr>pbuf = [], json_str = []\<rparr> 5 0xC4 4 0x11
      [0x11, 0x08, 0x02, 0x08, 0xAA]) =
   snd (decode_received_data \<lparr>platform = AVR, stray_s = []\<rparr> \<lparr>pbuf = ''x'', json_str = ''{x''\<rparr>
      5 0xC4 4 0x11 [0x11, 0x08, 0x02, 0x08])"
  using decode_received_data_local [where len = 4 and p = "[0x11, 0x08, 0x02, 0x08, 0xAA]"
      and q = "[0x11, 0x08, 0x02, 0x08]" and env = "\<lparr>platform = AVR, stray_s = []\<rparr>"
      and g = "\<lparr>pbuf = [], json_str = []\<rparr>" and h = "\<lparr>pbuf = ''x'', json_str = ''{x''\<rparr>"
      and n = 5 and r = "0xC4" and c = "0x11"]
  by simp

lemma raw_hex_bytes:
  "raw_hex bs = concat (map (\<lambda>b. [hex_char (unat b div 16), hex_char (unat b mod 16), CHR '' '']) bs)"
  by (induction bs) (simp_all add: c_fmt_X0_byte [OF unat_byte_bound])

lemma length_raw_hex: "length (raw_hex bs) = 3 * length bs"
  by (induction bs) (simp_all add: raw_hex_bytes)

lemma hex_val_byte_digits: "n < 256 \<Longrightarrow> hex_val [hex_char (n div 16), hex_char (n mod 16)] = n"
  using hex_val_c_fmt_X0 [of 2 n] by (simp only: c_fmt_X0_byte)

text \<open>C7: the returned code. The function returns the command code it was given, except
  on the raw path, where it returns 0; a data frame whose record stream aborts keeps
  its code.\<close>

theorem decode_received_data_code:
  "snd (decode_received_data env g n r len c p) = (if frame_shape c len = Raw_Frame then 0 else c)"
proof (cases c len rule: frame_shape_cases)
  case alive
  then show ?thesis
    by (simp add: decode_received_data_alive frame_shape_raw_iff Let_def)
next
  case ping
  then show ?thesis
    by (simp add: decode_received_data_ping frame_shape_raw_iff Let_def)
next
  case data
  then show ?thesis
    by (simp add: decode_received_data_data frame_shape_raw_iff Let_def)
next
  case raw
  then show ?thesis
    by (simp add: decode_received_data_raw)
qed

text \<open>C22: an alive frame of the alive payload's length is answered with exactly the
  opening, the 4-digit hexadecimal state and the battery fragment without index, in this
  order, and its code is returned.\<close>

theorem alive_frame_output:
  "json_str (fst (decode_received_data env g n r 4 RF_PL_ALIVE p)) =
     json_open n r @ '', '' @ fmt_state (payload_status p) @ '', '' @ decode_bat (payload_vbat p) [] @ ''}'' \<and>
   snd (decode_received_data env g n r 4 RF_PL_ALIVE p) = RF_PL_ALIVE"
  using length_json_open(2) [of n r] length_fmt_state [of "payload_status p"]
    length_decode_bat_noidx [of "payload_vbat p"]
  by (simp add: decode_received_data_alive json_close_def Let_def)

text \<open>C23: a ping or ping-back frame of the ping payload's length is answered with the
  opening and the state, then the battery fragment for a ping and the frame's own RSSI
  (\<open>myrssi\<close>) for a ping-back: exactly one of the two, never both.\<close>

theorem ping_frame_output:
  assumes "c = RF_PL_PING \<or> c = RF_PL_PINGBACK"
  shows "json_str (fst (decode_received_data env g n r 4 c p)) =
           json_open n r @ '', '' @ fmt_state (payload_status p) @ '', '' @
             (if c = RF_PL_PING then decode_bat (payload_vbat p) [] else fmt_myrssi r) @ ''}'' \<and>
         snd (decode_received_data env g n r 4 c p) = c"
  using assms length_json_open(2) [of n r] length_fmt_state [of "payload_status p"]
    length_decode_bat_noidx [of "payload_vbat p"] length_fmt_myrssi [of r]
  by (auto simp: decode_received_data_ping json_close_def Let_def code_defs)

theorem ping_frame_output_witness:
  "(RF_PL_PINGBACK = RF_PL_PING \<or> RF_PL_PINGBACK = RF_PL_PINGBACK) \<and>
   json_str (fst (decode_received_data \<lparr>platform = AVR, stray_s = []\<rparr> \<lparr>pbuf = [], json_str = []\<rparr> 5 0xC4 4
      RF_PL_PINGBACK [0x01, 0x00, 0x10, 0x0E])) =
     json_open 5 0xC4 @ '', '' @ fmt_state (payload_status [0x01, 0x00, 0x10, 0x0E]) @ '', '' @
       (if RF_PL_PINGBACK = RF_PL_PING then decode_bat (payload_vbat [0x01, 0x00, 0x10, 0x0E]) []
        else fmt_myrssi 0xC4) @ ''}'' \<and>
   snd (decode_received_data \<lparr>platform = AVR, stray_s = []\<rparr> \<lparr>pbuf = [], json_str = []\<rparr> 5 0xC4 4
      RF_PL_PINGBACK [0x01, 0x00, 0x10, 0x0E]) = RF_PL_PINGBACK"
  using ping_frame_output [where c = RF_PL_PINGBACK and env = "\<lparr>platform = AVR, stray_s = []\<rparr>"
      and g = "\<lparr>pbuf = [], json_str = []\<rparr>" and n = 5 and r = "0xC4" and p = "[0x01, 0x00, 0x10, 0x0E]"]
  by simp

text \<open>C24: every frame of no recognised shape is answered with the opening and a
  \<open>raw\<close> field holding its payload bytes, and the code 0 is returned.\<close>

theorem raw_frame_output:
  assumes "frame_shape c len = Raw_Frame" and "unat len \<le> length p"
  shows \<open>json_str (fst (decode_received_data env g n r len c p)) =
           json_open n r @ '', "raw":"'' @ raw_hex (take (unat len) p) @ ''"}'' \<and>
         snd (decode_received_data env g n r len c p) = 0\<close>
  using assms by (simp add: decode_received_data_raw raw_bytes_take json_close_def)

theorem raw_frame_output_witness:
  \<open>frame_shape 0x04 2 = Raw_Frame \<and> unat (2 :: byte) \<le> length [0xAB :: byte, 0x01] \<and>
   json_str (fst (decode_received_data \<lparr>platform = AVR, stray_s = []\<rparr> \<lparr>pbuf = [], json_str = []\<rparr> 5 0xC4 2 0x04
      [0xAB, 0x01])) =
     json_open 5 0xC4 @ '', "raw":"'' @ raw_hex (take (unat (2 :: byte)) [0xAB, 0x01]) @ ''"}'' \<and>
   snd (decode_received_data \<lparr>platform = AVR, stray_s = []\<rparr> \<lparr>pbuf = [], json_str = []\<rparr> 5 0xC4 2 0x04
      [0xAB, 0x01]) = 0\<close>
proof -
  have "frame_shape 0x04 2 = Raw_Frame"
    by (simp add: frame_shape_raw_iff code_unat)
  then show ?thesis
    using raw_frame_output [where c = "0x04" and len = 2 and p = "[0xAB, 0x01]"
        and env = "\<lparr>platform = AVR, stray_s = []\<rparr>" and g = "\<lparr>pbuf = [], json_str = []\<rparr>"
        and n = 5 and r = "0xC4"]
    by simp
qed

text \<open>C17: the raw dump writes past \<^verbatim>\<open>json_str\<close>. Its loop appends three characters
  per payload byte with no capacity check, so the reply is three characters per byte
  plus 11 longer than the opening, and from 34 payload bytes on it no longer fits the
  128-byte array.\<close>

theorem raw_dump_overflows:
  assumes "frame_shape c len = Raw_Frame" and "34 \<le> unat len"
  shows "length (json_str (fst (decode_received_data env g n r len c p))) =
           length (json_open n r) + 3 * unat len + 11 \<and>
         \<not> fits_json_str (json_str (fst (decode_received_data env g n r len c p)))"
  using assms length_json_open(1) [of n r]
  by (simp add: decode_received_data_raw length_raw_hex json_close_def fits_json_str_def
      json_str_size_def)

theorem raw_dump_overflows_witness:
  "frame_shape 0x04 34 = Raw_Frame \<and> 34 \<le> unat (34 :: byte) \<and>
   length (json_str (fst (decode_received_data \<lparr>platform = AVR, stray_s = []\<rparr> \<lparr>pbuf = [], json_str = []\<rparr>
      5 0xC4 34 0x04 (replicate 34 0xAB)))) = length (json_open 5 0xC4) + 3 * unat (34 :: byte) + 11 \<and>
   \<not> fits_json_str (json_str (fst (decode_received_data \<lparr>platform = AVR, stray_s = []\<rparr>
      \<lparr>pbuf = [], json_str = []\<rparr> 5 0xC4 34 0x04 (replicate 34 0xAB))))"
proof -
  have fs: "frame_shape 0x04 34 = Raw_Frame"
    by (simp add: frame_shape_raw_iff code_unat)
  have le: "34 \<le> unat (34 :: byte)"
    by simp
  show ?thesis
    using raw_dump_overflows [OF fs le, where env = "\<lparr>platform = AVR, stray_s = []\<rparr>"
        and g = "\<lparr>pbuf = [], json_str = []\<rparr>" and n = 5 and r = "0xC4" and p = "replicate 34 0xAB"] fs le
    by blast
qed

text \<open>C25: the raw dump is two uppercase hexadecimal digits and a blank per byte, and
  reading it back two digits at a time recovers the bytes.\<close>

theorem raw_hex_roundtrip:
  "parse_raw (raw_hex bs) = bs \<and>
   raw_hex bs = concat (map (\<lambda>b. [hex_char (unat b div 16), hex_char (unat b mod 16), CHR '' '']) bs)"
proof -
  have "parse_raw (concat (map (\<lambda>b. [hex_char (unat b div 16), hex_char (unat b mod 16), CHR '' '']) bs)) = bs"
    by (induction bs) (simp_all add: hex_val_byte_digits [OF unat_byte_bound])
  then show ?thesis
    by (simp add: raw_hex_bytes)
qed

text \<open>C6: no leakage between frames. The result of a call does not depend on what the
  global buffers held before it; in particular decoding a frame a second time, from the
  buffers the first decoding left, gives the same reply and code.\<close>

theorem decode_received_data_no_leak:
  "decode_received_data env g n r len c p = decode_received_data env h n r len c p \<and>
   decode_received_data env (fst (decode_received_data env g n r len c p)) n r len c p =
     decode_received_data env g n r len c p"
  by (simp add: decode_received_data_def ulp_globals_overwrite)

text \<open>C8: the returned code is always one the frame-name table resolves: 0 for a raw
  frame, a command code for an alive or ping frame, a data code for a data frame.\<close>

theorem decode_received_data_code_valid:
  "isPayloadValid (snd (decode_received_data env g n r len c p))"
proof (cases c len rule: frame_shape_cases)
  case alive
  then have "snd (decode_received_data env g n r len c p) = RF_PL_ALIVE"
    by (simp add: decode_received_data_alive Let_def)
  then show ?thesis
    by (simp add: code_unat code_defs)
next
  case ping
  then show ?thesis
    by (auto simp: decode_received_data_ping Let_def code_unat code_defs)
next
  case data
  then show ?thesis
    by (simp add: decode_received_data_data Let_def code_unat)
next
  case raw
  then show ?thesis
    by (simp add: decode_received_data_raw code_unat)
qed

text \<open>C18: the replies of the alive, ping and data paths are at most 130 characters
  long: the 129 that \<^verbatim>\<open>add_json_data\<close> can leave and the closing brace. With
  its NUL that is three bytes more than \<^verbatim>\<open>json_str\<close> holds, and the bound is
  reached: a data frame of seven temperatures and one RSSI record gives 130 characters.\<close>

theorem reply_length_bound:
  assumes "frame_shape c len \<noteq> Raw_Frame"
  shows "length (json_str (fst (decode_received_data env g n r len c p))) \<le> 130"
proof (cases c len rule: frame_shape_cases)
  case alive
  then show ?thesis
    using length_json_open(2) [of n r] length_fmt_state [of "payload_status p"]
      length_decode_bat_noidx [of "payload_vbat p"]
    by (simp add: decode_received_data_alive json_close_def Let_def)
next
  case ping
  then show ?thesis
    using length_json_open(2) [of n r] length_fmt_state [of "payload_status p"]
      length_decode_bat_noidx [of "payload_vbat p"] length_fmt_myrssi [of r]
    by (auto simp: decode_received_data_ping json_close_def Let_def code_defs)
next
  case data
  have "length (json_open n r) \<le> 129"
    using length_json_open(2) [of n r] by simp
  then have "length (json_str (decode_records env p len
      (g\<lparr>pbuf := decode_frame_type c, json_str := json_open n r\<rparr>))) \<le> 129"
    unfolding decode_records_def by (intro record_loop_json_le) simp
  with data show ?thesis
    by (simp add: decode_received_data_data json_close_def Let_def)
next
  case raw
  with assms show ?thesis
    by simp
qed

theorem reply_length_bound_witness:
  "frame_shape 0x11 24 \<noteq> Raw_Frame \<and>
   length (json_str (fst (decode_received_data \<lparr>platform = AVR, stray_s = []\<rparr> \<lparr>pbuf = [], json_str = []\<rparr>
     5 0xC4 24 0x11 (0x11 # concat (replicate 7 [0x08, 0x02, 0x08]) @ [0x18, 0xC4])))) \<le> 130 \<and>
   length (json_str (fst (decode_received_data \<lparr>platform = AVR, stray_s = []\<rparr> \<lparr>pbuf = [], json_str = []\<rparr>
     5 0xC4 24 0x11 (0x11 # concat (replicate 7 [0x08, 0x02, 0x08]) @ [0x18, 0xC4])))) = 130"
proof -
  have fs: "frame_shape 0x11 24 \<noteq> Raw_Frame"
    by (simp add: frame_shape_raw_iff code_unat)
  have eq: "length (json_str (fst (decode_received_data \<lparr>platform = AVR, stray_s = []\<rparr>
      \<lparr>pbuf = [], json_str = []\<rparr> 5 0xC4 24 0x11 (0x11 # concat (replicate 7 [0x08, 0x02, 0x08]) @ [0x18, 0xC4])))) = 130"
    by code_simp
  from fs have "length (json_str (fst (decode_received_data \<lparr>platform = AVR, stray_s = []\<rparr>
      \<lparr>pbuf = [], json_str = []\<rparr> 5 0xC4 24 0x11 (0x11 # concat (replicate 7 [0x08, 0x02, 0x08]) @ [0x18, 0xC4])))) \<le> 130"
    by (rule reply_length_bound)
  with fs eq show ?thesis
    by blast
qed

lemma length_decode_frame_type: "length (decode_frame_type c) \<le> 10"
proof -
  have all: "\<forall>s \<in> set rf_frame. length s \<le> 10"
    by (simp add: rf_frame_def hex_char_def)
  have "(if unat c < 32 then unat c else 0) < length rf_frame"
    by simp
  then have "decode_frame_type c \<in> set rf_frame"
    unfolding decode_frame_type_index by (rule nth_mem)
  with all show ?thesis
    by blast
qed

text \<open>C19: the scratch buffer \<^verbatim>\<open>pbuf\<close> holds, at the end of every call, a text that
  fits its 24 bytes with the NUL (the frame's name or the last fragment written), as long
  as \<^verbatim>\<open>decode_volt\<close>'s stray \<^verbatim>\<open>%s\<close> prints nothing.\<close>

theorem decode_received_data_pbuf_fits:
  assumes "stray_s env = []"
  shows "length (pbuf (fst (decode_received_data env g n r len c p))) < 24"
proof (cases c len rule: frame_shape_cases)
  case alive
  then show ?thesis
    using length_decode_bat_noidx [of "payload_vbat p"]
    by (simp add: decode_received_data_alive Let_def emit_def)
next
  case ping
  then show ?thesis
    using length_decode_bat_noidx [of "payload_vbat p"] length_fmt_myrssi [of r]
      length_fmt_state [of "payload_status p"]
    by (auto simp: decode_received_data_ping Let_def emit_def code_defs)
next
  case data
  have "length (decode_frame_type c) < 24"
    using length_decode_frame_type [of c] by simp
  then have "length (pbuf (decode_records env p len
      (g\<lparr>pbuf := decode_frame_type c, json_str := json_open n r\<rparr>))) < 24"
    unfolding decode_records_def using assms by (intro record_loop_pbuf) simp_all
  with data show ?thesis
    by (simp add: decode_received_data_data Let_def)
next
  case raw
  then show ?thesis
    using length_decode_frame_type [of c] by (simp add: decode_received_data_raw)
qed

theorem decode_received_data_pbuf_fits_witness:
  "stray_s \<lparr>platform = AVR, stray_s = []\<rparr> = [] \<and>
   length (pbuf (fst (decode_received_data \<lparr>platform = AVR, stray_s = []\<rparr> \<lparr>pbuf = [], json_str = []\<rparr>
     5 0xC4 7 0x11 [0x11, 0x08, 0x02, 0x08, 0x09, 0x85, 0x08]))) < 24"
  using decode_received_data_pbuf_fits [where env = "\<lparr>platform = AVR, stray_s = []\<rparr>"
      and g = "\<lparr>pbuf = [], json_str = []\<rparr>" and n = 5 and r = "0xC4" and len = 7 and c = "0x11"
      and p = "[0x11, 0x08, 0x02, 0x08, 0x09, 0x85, 0x08]"]
  by simp

text \<open>C13: completeness end to end. A data frame whose record bytes are well-formed
  records laid end to end (and at most one spare byte) is answered with the opening, the
  fragment of every record in stream order, and the closing brace, and keeps its code.\<close>

theorem decode_received_data_complete:
  assumes "isPayloadData c" and "2 < unat len" and "unat len \<le> length p"
    and "\<forall>r \<in> set rs. wf_reading r"
    and "take (unat len - 1) (drop 1 p) = concat (map reading_bytes rs) @ rest" and "length rest < 2"
  shows "json_str (fst (decode_received_data env g n r len c p)) =
           json_close (foldl add_json_data (json_open n r) (map (render_reading env) rs)) \<and>
         snd (decode_received_data env g n r len c p) = c"
  using decode_records_parse [OF assms(3,2),
      where env = env and g = "g\<lparr>pbuf := decode_frame_type c, json_str := json_open n r\<rparr>"]
    parse_records_concat [OF assms(4,6)] assms(5)
  by (simp add: decode_received_data_data [OF assms(1,2)] json_close_def Let_def)

theorem decode_received_data_complete_witness:
  "isPayloadData 0x11 \<and> 2 < unat (7 :: byte) \<and> unat (7 :: byte) \<le> length [0x11 :: byte, 0x08, 0x02, 0x08, 0x09, 0x85, 0x08] \<and>
   wf_reading (Reading Temp 0x08 [0x02, 0x08]) \<and> wf_reading (Reading Temp 0x09 [0x85, 0x08]) \<and>
   take (unat (7 :: byte) - 1) (drop 1 [0x11 :: byte, 0x08, 0x02, 0x08, 0x09, 0x85, 0x08]) =
     concat (map reading_bytes [Reading Temp 0x08 [0x02, 0x08], Reading Temp 0x09 [0x85, 0x08]]) @ [] \<and>
   length ([] :: byte list) < 2 \<and>
   json_str (fst (decode_received_data \<lparr>platform = AVR, stray_s = []\<rparr> \<lparr>pbuf = [], json_str = []\<rparr> 5 0xC4 7 0x11
      [0x11, 0x08, 0x02, 0x08, 0x09, 0x85, 0x08])) =
     json_close (foldl add_json_data (json_open 5 0xC4) (map (render_reading \<lparr>platform = AVR, stray_s = []\<rparr>)
       [Reading Temp 0x08 [0x02, 0x08], Reading Temp 0x09 [0x85, 0x08]])) \<and>
   snd (decode_received_data \<lparr>platform = AVR, stray_s = []\<rparr> \<lparr>pbuf = [], json_str = []\<rparr> 5 0xC4 7 0x11
      [0x11, 0x08, 0x02, 0x08, 0x09, 0x85, 0x08]) = 0x11"
proof -
  have d: "isPayloadData (0x11 :: byte)"
    by (simp add: isPayloadData_unat)
  have "sensor_of 0x08 = Some Temp" and "sensor_of 0x09 = Some Temp"
    by (simp_all add: sensor_of_def kind_defs)
  then have w1: "wf_reading (Reading Temp 0x08 [0x02, 0x08])" and w2: "wf_reading (Reading Temp 0x09 [0x85, 0x08])"
    by (simp_all add: wf_reading_def)
  then have wf: "\<forall>r \<in> set [Reading Temp 0x08 [0x02, 0x08], Reading Temp 0x09 [0x85, 0x08]]. wf_reading r"
    by simp
  show ?thesis
    using decode_received_data_complete [where c = "0x11" and len = 7 and p = "[0x11, 0x08, 0x02, 0x08, 0x09, 0x85, 0x08]"
        and rs = "[Reading Temp 0x08 [0x02, 0x08], Reading Temp 0x09 [0x85, 0x08]]" and rest = "[]"
        and env = "\<lparr>platform = AVR, stray_s = []\<rparr>" and g = "\<lparr>pbuf = [], json_str = []\<rparr>"
        and n = 5 and r = "0xC4"] d wf w1 w2
    by simp
qed

text \<open>C20: framing. Every reply, on every path, starts with the opening
  \<open>{"id":\<dots>, "rssi":\<dots>\<close> written for this frame and ends with the closing brace.\<close>

theorem decode_received_data_framing:
  "prefix (json_open n r) (json_str (fst (decode_received_data env g n r len c p))) \<and>
   last (json_str (fst (decode_received_data env g n r len c p))) = CHR ''}''"
proof (cases c len rule: frame_shape_cases)
  case alive
  then show ?thesis
    using length_json_open(2) [of n r] length_fmt_state [of "payload_status p"]
      length_decode_bat_noidx [of "payload_vbat p"]
    by (simp add: decode_received_data_alive json_close_def Let_def)
next
  case ping
  then show ?thesis
    using length_json_open(2) [of n r] length_fmt_state [of "payload_status p"]
      length_decode_bat_noidx [of "payload_vbat p"] length_fmt_myrssi [of r]
    by (auto simp: decode_received_data_ping json_close_def Let_def code_defs)
next
  case data
  have "length (json_open n r) \<le> 129"
    using length_json_open(2) [of n r] by simp
  then have "prefix (json_open n r) (json_str (decode_records env p len
      (g\<lparr>pbuf := decode_frame_type c, json_str := json_open n r\<rparr>)))"
    unfolding decode_records_def
    using record_loop_json_prefix [where env = env and p = p and s = "\<lparr>pbuf = decode_frame_type c,
        json_str = json_open n r, pdat = 1, lrem = len - 1, data_type = p ! 1, error = False\<rparr>"]
    by simp
  with data show ?thesis
    by (auto simp: decode_received_data_data json_close_def Let_def intro: prefix_order.trans)
next
  case raw
  then show ?thesis
    by (simp add: decode_received_data_raw json_close_def)
qed

text \<open>C15: the fallbacks to the raw dump. An alive, ping or ping-back code whose
  length is not the 4 bytes of its payload, and a data code with at most 2 bytes, are
  not recognised: the frame is dumped raw and the code 0 returned.\<close>

theorem decode_received_data_fallback:
  assumes "(c = RF_PL_ALIVE \<or> c = RF_PL_PING \<or> c = RF_PL_PINGBACK) \<and> unat len \<noteq> 4 \<or>
           isPayloadData c \<and> unat len \<le> 2"
  shows "frame_shape c len = Raw_Frame \<and> snd (decode_received_data env g n r len c p) = 0"
proof -
  have "frame_shape c len = Raw_Frame"
    using assms by (auto simp: frame_shape_raw_iff code_unat code_defs)
  then show ?thesis
    by (simp add: decode_received_data_raw)
qed

theorem decode_received_data_fallback_witness:
  "((RF_PL_PING = RF_PL_ALIVE \<or> RF_PL_PING = RF_PL_PING \<or> RF_PL_PING = RF_PL_PINGBACK) \<and> unat (5 :: byte) \<noteq> 4 \<or>
    isPayloadData RF_PL_PING \<and> unat (5 :: byte) \<le> 2) \<and>
   frame_shape RF_PL_PING 5 = Raw_Frame \<and>
   snd (decode_received_data \<lparr>platform = AVR, stray_s = []\<rparr> \<lparr>pbuf = [], json_str = []\<rparr> 5 0xC4 5 RF_PL_PING
     [0x01, 0x00, 0x10, 0x0E, 0x00]) = 0"
  using decode_received_data_fallback [where c = RF_PL_PING and len = 5 and env = "\<lparr>platform = AVR, stray_s = []\<rparr>"
      and g = "\<lparr>pbuf = [], json_str = []\<rparr>" and n = 5 and r = "0xC4" and p = "[0x01, 0x00, 0x10, 0x0E, 0x00]"]
  by simp

text \<open>C16: an unknown first record. A data frame whose first tag is of no known kind
  aborts before any fragment: the reply is the opening and the closing brace, and the
  data code is returned unchanged.\<close>

theorem decode_received_data_first_unknown:
  assumes "isPayloadData c" and "2 < unat len" and "unat len \<le> length p" and "sensor_of (p ! 1) = None"
  shows "json_str (fst (decode_received_data env g n r len c p)) = json_open n r @ ''}'' \<and>
         snd (decode_received_data env g n r len c p) = c"
proof -
  have "parse_records (take (unat len - 1) (drop 1 p)) = ([], True)"
    using assms(2,3,4) by (intro parse_records_unknown) (simp_all add: hd_take hd_drop_conv_nth)
  then show ?thesis
    using decode_records_parse [OF assms(3,2),
        where env = env and g = "g\<lparr>pbuf := decode_frame_type c, json_str := json_open n r\<rparr>"]
    by (simp add: decode_received_data_data [OF assms(1,2)] json_close_def Let_def)
qed

theorem decode_received_data_first_unknown_witness:
  "isPayloadData 0x11 \<and> 2 < unat (4 :: byte) \<and> unat (4 :: byte) \<le> length [0x11 :: byte, 0xFF, 0x00, 0x00] \<and>
   sensor_of ([0x11 :: byte, 0xFF, 0x00, 0x00] ! 1) = None \<and>
   json_str (fst (decode_received_data \<lparr>platform = AVR, stray_s = []\<rparr> \<lparr>pbuf = [], json_str = []\<rparr> 5 0xC4 4 0x11
     [0x11, 0xFF, 0x00, 0x00])) = json_open 5 0xC4 @ ''}'' \<and>
   snd (decode_received_data \<lparr>platform = AVR, stray_s = []\<rparr> \<lparr>pbuf = [], json_str = []\<rparr> 5 0xC4 4 0x11
     [0x11, 0xFF, 0x00, 0x00]) = 0x11"
proof -
  have d: "isPayloadData (0x11 :: byte)"
    by (simp add: isPayloadData_unat)
  have u: "sensor_of ([0x11 :: byte, 0xFF, 0x00, 0x00] ! 1) = None"
    by (simp add: sensor_of_def kind_defs)
  show ?thesis
    using decode_received_data_first_unknown [where c = "0x11" and len = 4 and p = "[0x11, 0xFF, 0x00, 0x00]"
        and env = "\<lparr>platform = AVR, stray_s = []\<rparr>" and g = "\<lparr>pbuf = [], json_str = []\<rparr>" and n = 5 and r = "0xC4"] d u
    by simp
qed

text \<open>C14: no fragment of a short data frame is dropped. On a data frame of at most 9
  bytes (at most four records) every fragment is at most 23 characters, so the capacity
  test of \<^verbatim>\<open>add_json_data\<close> passes for each of them: the reply is the opening, then
  \<open>", "\<close> and the fragment of every reading the parser finds, in stream order, then the
  closing brace (when the stray \<^verbatim>\<open>%s\<close> prints nothing).\<close>

theorem decode_received_data_short_complete:
  assumes "stray_s env = []" and "isPayloadData c" and "2 < unat len" and "unat len \<le> 9"
    and "unat len \<le> length p"
  shows "json_str (fst (decode_received_data env g n r len c p)) =
           json_open n r @
           concat (map (\<lambda>f. '', '' @ f)
             (map (render_reading env) (fst (parse_records (take (unat len - 1) (drop 1 p)))))) @ ''}''"
proof -
  let ?rs = "fst (parse_records (take (unat len - 1) (drop 1 p)))"
  have "length ?rs \<le> 4"
    using parse_records_count [of "take (unat len - 1) (drop 1 p)"] assms(4,5) by simp
  then have "length (json_open n r) + 25 * length (map (render_reading env) ?rs) \<le> 129"
    using length_json_open(2) [of n r] by simp
  moreover have "\<forall>f\<in>set (map (render_reading env) ?rs). length f \<le> 23"
    using length_render_reading [OF assms(1)] by simp
  ultimately show ?thesis
    using decode_records_parse [OF assms(5,3),
        where env = env and g = "g\<lparr>pbuf := decode_frame_type c, json_str := json_open n r\<rparr>"]
    by (simp add: decode_received_data_data [OF assms(2,3)] json_close_def Let_def foldl_add_json_data_all)
qed

theorem decode_received_data_short_complete_witness:
  "stray_s \<lparr>platform = AVR, stray_s = []\<rparr> = [] \<and> isPayloadData 0x11 \<and> 2 < unat (9 :: byte) \<and>
   unat (9 :: byte) \<le> 9 \<and> unat (9 :: byte) \<le> length [0x11 :: byte, 0x18, 0xC4, 0x19, 0xC5, 0x1A, 0xC6, 0x1B, 0xC7] \<and>
   json_str (fst (decode_received_data \<lparr>platform = AVR, stray_s = []\<rparr> \<lparr>pbuf = [], json_str = []\<rparr> 5 0xC4 9 0x11
     [0x11, 0x18, 0xC4, 0x19, 0xC5, 0x1A, 0xC6, 0x1B, 0xC7])) =
   json_open 5 0xC4 @
   concat (map (\<lambda>f. '', '' @ f) (map (render_reading \<lparr>platform = AVR, stray_s = []\<rparr>)
     (fst (parse_records (take (unat (9 :: byte) - 1) (drop 1 [0x11 :: byte, 0x18, 0xC4, 0x19, 0xC5, 0x1A, 0xC6, 0x1B, 0xC7])))))) @ ''}''"
proof -
  have d: "isPayloadData (0x11 :: byte)"
    by (simp add: isPayloadData_unat)
  show ?thesis
    using decode_received_data_short_complete [where env = "\<lparr>platform = AVR, stray_s = []\<rparr>" and c = "0x11"
        and len = 9 and p = "[0x11, 0x18, 0xC4, 0x19, 0xC5, 0x1A, 0xC6, 0x1B, 0xC7]"
        and g = "\<lparr>pbuf = [], json_str = []\<rparr>" and n = 5 and r = "0xC4"] d
    by simp
qed

end
