(* ===== verification/Spec2Isabelle.thy ===== *)
theory Spec2Isabelle
  imports Dispatcher
begin

text \<open>
  Verification development of the ULPNode RF protocol decoder,
  \<^verbatim>\<open>src/ULPNode_RF_Protocol.cpp\<close>. The program receives one radio frame at a time
  (node id, RSSI, length, command code, payload bytes) in \<^verbatim>\<open>decode_received_data\<close>
  and renders it as a JSON-like line in the global buffer \<^verbatim>\<open>char json_str[128]\<close>,
  using the global scratch buffer \<^verbatim>\<open>char pbuf[24]\<close> for each fragment; it returns
  the command code, reset to 0 when the frame was not recognised.

  \<^bold>\<open>Parts and theories.\<close>
  \<^item> \<open>ULP_Prelude\<close>: the machine types (\<open>byte\<close>, \<open>u16\<close>, \<open>u32\<close> as \<open>8/16/32 word\<close>),
    little-endian reads of packed structs from the payload (\<open>rd_u8\<close>, \<open>rd_u16\<close>,
    \<open>rd_u32\<close>: \<^verbatim>\<open>((s_temp * ) pdat)->temp\<close> and the like) with their locality lemmas,
    the C environment \<open>c_env\<close> (AVR with a 16-bit \<open>int\<close>, or Spark with a 32-bit one,
    and the text printed by the unmatched \<^verbatim>\<open>%s\<close> of \<^verbatim>\<open>decode_volt\<close>), and word
    lemmas on \<open>sint\<close>/\<open>unat\<close>.
  \<^item> \<open>C_Format\<close>: the libc conversions the code uses, \<^verbatim>\<open>%d\<close>/\<^verbatim>\<open>%ld\<close> (\<open>c_fmt_d\<close>),
    \<^verbatim>\<open>%0wX\<close> (\<open>c_fmt_X0\<close>) and \<^verbatim>\<open>dtostrf\<close> (\<open>dtostrf_scaled\<close>), and readers for them
    (\<open>dec_val\<close>, \<open>hex_val\<close>, \<open>read_fixed\<close>) with the round-trip and length lemmas.
  \<^item> \<open>Protocol\<close>: the constants of \<^verbatim>\<open>ULPNode_RF_Protocol.h\<close>, which is not shipped
    under \<^verbatim>\<open>src/\<close> and is modelled from the specification: command codes, the
    \<^verbatim>\<open>isPayloadValid\<close>/\<^verbatim>\<open>isPayloadData\<close> tests, sensor kinds and the
    \<^verbatim>\<open>isDataX\<close> tests, struct sizes.
  \<^item> \<open>Frame_Type\<close>: the name table \<^verbatim>\<open>rf_frame\<close> and \<^verbatim>\<open>decode_frame_type\<close>.
  \<^item> \<open>Value_Formatter\<close>: \<^verbatim>\<open>decode_bat\<close>, \<^verbatim>\<open>decode_lowbat\<close>, \<^verbatim>\<open>decode_volt\<close>,
    \<^verbatim>\<open>decode_temp\<close>, \<^verbatim>\<open>decode_hum\<close>, \<^verbatim>\<open>decode_lux\<close>, \<^verbatim>\<open>decode_co2\<close>,
    \<^verbatim>\<open>decode_rssi\<close>, \<^verbatim>\<open>decode_counter\<close>, and the unused \<^verbatim>\<open>decode_digital_io\<close>
    and \<^verbatim>\<open>decode_analog_io\<close>, one definition each returning the text the function
    prints into \<open>pbuf\<close>. The two IO formatters' conversions are undefined in C; the
    model makes the undefined parts explicit: the \<^verbatim>\<open>char *pin\<close> printed with
    \<^verbatim>\<open>%d\<close> is its address (\<open>ptr_d\<close>), and the two bytes AVR's \<^verbatim>\<open>%ld\<close> reads after
    the 16-bit value are an argument \<open>hi\<close> (\<open>long_of_u16_arg\<close>).
  \<^item> \<open>Json_Buffer\<close>: \<^verbatim>\<open>add_json_data\<close> with its \<^verbatim>\<open>uint8_t\<close> length and its capacity
    test, the opening \<^verbatim>\<open>sprintf_P(json_str, ...)\<close> (\<open>json_open\<close>) and the closing
    \<^verbatim>\<open>strcat\<close> (\<open>json_close\<close>). The buffer is its contents, a string without bound;
    whether it fits the array is the predicate \<open>fits_json_str\<close>.
  \<^item> \<open>Record_Decoder\<close>: the data-record loop of \<^verbatim>\<open>decode_received_data\<close>
    (lines 288--420). The globals are the record \<open>ulp_globals\<close>; the loop's locals
    \<^verbatim>\<open>pdat\<close>, \<^verbatim>\<open>l\<close>, \<^verbatim>\<open>data_type\<close>, \<^verbatim>\<open>error\<close> extend it to \<open>rx_loop\<close>, with \<open>pdat\<close>
    an index into the payload. \<open>select_record\<close> is the \<^verbatim>\<open>if/else if\<close> chain of kind
    tests and length guards, \<open>record_step\<close> one body of the \<^verbatim>\<open>do ... while\<close>,
    \<open>record_loop\<close> the loop, \<open>decode_records\<close> its set-up. The specification's view is
    the parser \<open>parse_records\<close> of a byte list into \<open>reading\<close>s and \<open>render_reading\<close>.
  \<^item> \<open>Dispatcher\<close>: \<^verbatim>\<open>decode_received_data\<close> itself (\<open>decode_received_data\<close>), with the
    fragment printers of its alive and ping paths (\<open>fmt_state\<close>, \<open>fmt_myrssi\<close>), the
    raw dump loop (\<open>raw_hex\<close>) and the pattern \<^verbatim>\<open>sprintf(pbuf, ..);
    add_json_data(json_str, pbuf)\<close> (\<open>emit\<close>); the specification's four frame shapes
    (\<open>frame_shape\<close>) and a reader of the raw dump (\<open>parse_raw\<close>).

  \<^bold>\<open>What is shown.\<close> The loop refines the parser (\<open>Record_Decoder.decode_records_refines\<close>),
  and the dispatcher's data path the composition of opening, parser, buffer and closing
  (\<open>Dispatcher.decode_received_data_data_refines\<close>). The loop keeps its invariant
  \<open>rx_inv\<close> (cursor on a tag, at least two bytes left, window inside the payload), runs
  at most \<open>l div 2\<close> times, decodes a stream of well-formed records completely and
  without error, aborts on an unknown or truncated record keeping the earlier fragments,
  and emits only fragments of well-formed records tiling a prefix of the payload. The
  reply depends only on the first \<open>len\<close> payload bytes and not at all on the buffers'
  previous contents, so decoding a frame twice gives the same reply; the code is reset on
  the raw path only and is always a code of the name table. Every reply starts with the
  opening written for its frame and ends with the closing brace, and a data frame of
  well-formed records is answered with all their fragments in stream order, and on a data
  frame of at most 9 bytes none of them is dropped by the capacity test
  (\<open>Dispatcher.decode_received_data_short_complete\<close>). A command
  code with the wrong length and a data code with at most two bytes fall through to the
  raw dump with code 0 (\<open>Dispatcher.decode_received_data_fallback\<close>); a data frame
  whose first tag is unknown is answered with its opening and closing brace only. The alive, ping and raw paths
  print exactly the fields the specification lists, \<^verbatim>\<open>pbuf\<close> fits its 24 bytes in
  every state of the loop and at the end of every call (when the stray \<^verbatim>\<open>%s\<close>
  prints nothing), the raw dump reads back as the
  payload, and the specification's example frames decode to the replies it lists
  (\<open>spec_example_frames\<close>, below, an evaluation rather than a theorem about all inputs).
  The resolver never indexes past its table, and two codes print the same name exactly when
  the clamp maps them to one index or to the free slots \<open>k\<close> and \<open>k + 16\<close>
  (\<open>Frame_Type.decode_frame_type_same_name\<close>). The formatters' fixed-point text reads
  back as the transmitted integers; the signed conversions wrap as the C promotions make
  them.

  \<^bold>\<open>Defects.\<close> \<^verbatim>\<open>add_json_data\<close> tests \<open>l + strlen(json) < 128\<close>
  but writes two more characters, so the buffer can reach 129 characters and its NUL
  (\<open>Json_Buffer.add_json_data_overflow\<close>); with the closing brace, which is appended
  without a check, a reply of the data path reaches 130 characters, and a concrete frame
  of seven temperatures and one RSSI record does (\<open>Dispatcher.reply_length_bound\<close>);
  the raw dump has no capacity check at all and overruns \<^verbatim>\<open>json_str\<close> from 34 payload
  bytes on (\<open>Dispatcher.raw_dump_overflows\<close>); \<^verbatim>\<open>decode_counter\<close>'s \<^verbatim>\<open>%ld\<close> prints
  counts of \<open>2^31\<close> or more as negative numbers and \<^verbatim>\<open>decode_co2\<close>'s \<^verbatim>\<open>%d\<close> does so
  on AVR from 32768 on (\<open>Value_Formatter.decode_counter_text\<close>,
  \<open>Value_Formatter.decode_co2_text\<close>); \<^verbatim>\<open>decode_volt\<close> has a \<^verbatim>\<open>%s\<close> without
  argument (\<open>Value_Formatter.decode_volt_layout\<close>); the free slots of the name table
  repeat the names \<open>"8"\<close> to \<open>"F"\<close> in both halves, so a printed name does not
  identify its code (\<open>Frame_Type.decode_frame_type_same_name\<close>). The definitions keep
  three more defects that need no theorem: \<^verbatim>\<open>decode_hum\<close> prints the raw humidity
  before the scaled one; \<^verbatim>\<open>decode_analog_io\<close> prints its value right on AVR only by
  chance (the undefined bytes are the argument \<open>hi\<close> of \<open>long_of_u16_arg\<close>);
  \<^verbatim>\<open>add_json_data\<close> keeps the buffer's length in a \<^verbatim>\<open>uint8_t\<close> (written out as
  \<open>mod 256\<close>), which \<^verbatim>\<open>decode_received_data\<close> never lets reach 256.

  \<^bold>\<open>Bounds and fuel.\<close> No fuel is used: the record loop is a \<open>function\<close> whose
  termination measure is the remaining count \<open>unat l\<close>, which every body that does not
  fail lowers by at least two (a failing body ends the loop). The raw loop is structural
  recursion over the \<open>len\<close> bytes read. \<^verbatim>\<open>dtostrf\<close> is modelled as exact decimal
  rounding of the scaled integer: every value printed is a 16-bit integer divided by 10,
  100 or 1000, for which the AVR's float conversion is exact to the printed precision.

  \<^bold>\<open>Not modelled.\<close> The commented-out name table \<^verbatim>\<open>rf_data\<close> and the debug macros
  \<^verbatim>\<open>ULPNP_Debug\<close> (serial output, no effect on the state). The PROGMEM/\<^verbatim>\<open>strcpy_P\<close>
  distinction between AVR and Spark is a storage detail with the same result. Bytes read
  past the end of the payload list are unspecified values, as in C; the theorems that
  depend on the payload assume its list holds the declared length. The radio transport
  that calls \<^verbatim>\<open>decode_received_data\<close> (the driver that fills node id, RSSI, length
  and payload) is not part of \<^verbatim>\<open>src/\<close>: the model takes its outputs as the
  arguments of \<open>decode_received_data\<close>, for every value they can have.
\<close>

text \<open>The specification's example frames, decoded end to end by evaluation. A data frame with
  temperature records of index 0 and 1 (values 2050 and 2181) gives both fragments in
  stream order, \<open>"temp":20.50\<close> without suffix and \<open>"temp1":21.81\<close>; a data
  frame whose second tag is of no known kind gives the first fragment only and keeps its
  command code; an OTA frame is dumped raw and its code reset to 0.\<close>

lemma spec_example_frames:
  \<open>decode_received_data \<lparr>platform = AVR, stray_s = []\<rparr> \<lparr>pbuf = [], json_str = []\<rparr> 5 0xC4 7 0x11
     [0x11, 0x08, 0x02, 0x08, 0x09, 0x85, 0x08] =
     (\<lparr>pbuf = ''"temp1":21.81'', json_str = ''{"id":5, "rssi":-60, "temp":20.50, "temp1":21.81}''\<rparr>, 0x11) \<and>
   decode_received_data \<lparr>platform = AVR, stray_s = []\<rparr> \<lparr>pbuf = [], json_str = []\<rparr> 5 0xC4 6 0x11
     [0x11, 0x08, 0x02, 0x08, 0xFF, 0x00] =
     (\<lparr>pbuf = ''"temp":20.50'', json_str = ''{"id":5, "rssi":-60, "temp":20.50}''\<rparr>, 0x11) \<and>
   decode_received_data \<lparr>platform = AVR, stray_s = []\<rparr> \<lparr>pbuf = [], json_str = []\<rparr> 5 0xC4 2 0x04
     [0xAB, 0x01] =
     (\<lparr>pbuf = ''OTA_CONFIG'', json_str = ''{"id":5, "rssi":-60, "raw":"AB 01 "}''\<rparr>, 0)\<close>
  by code_simp

end
